theory Spec2Isabelle
  imports Main
begin

section \<open>Scenario IR\<close>

text \<open>
  The steps and scenarios of \<^verbatim>\<open>TestStep\<close> and \<^verbatim>\<open>TestScenario\<close> (compiler-core) and of
  the compile request schema. The TypeScript type of \<^verbatim>\<open>action\<close> is a union of eight string
  literals, but the value is copied unchecked from the text service's reply and the code
  generator has a \<^verbatim>\<open>default\<close> branch for other strings, so the field is a string here.
  An absent optional field is \<open>None\<close>. The field \<^verbatim>\<open>id\<close> is called \<open>scenario_id\<close>.

  Strings are lists of code units; the model covers code units below 256, on which the
  regular expression class \<^verbatim>\<open>\s\<close> of JavaScript holds tab, line feed, vertical tab, form feed,
  carriage return, space and the no-break space.
\<close>

record TestStep =
  action :: string
  target :: string
  data :: "string option"
  description :: string

record TestScenario =
  scenario_id :: string
  name :: string
  steps :: "TestStep list"
  timeTakenToCompile :: "string option"
  tags :: "string list option"

datatype selector_strategy = RoleFirst | Css

record CompileOptions =
  emitPageObjects :: bool
  selectorStrategy :: selector_strategy
  fileName :: string
  suiteId :: string
  runId :: "string option"

definition recognized_actions :: "string set" where
  "recognized_actions =
     {''goto'', ''fill'', ''click'', ''expect'', ''wait'', ''type'', ''select'', ''hover''}"

section \<open>JavaScript string operations used by the sources\<close>

definition is_alnum :: "char \<Rightarrow> bool" where
  \<comment> \<open>the class \<^verbatim>\<open>[a-zA-Z0-9]\<close>\<close>
  "is_alnum c =
     (let n = (of_char c :: nat)
      in (97 \<le> n \<and> n \<le> 122) \<or> (65 \<le> n \<and> n \<le> 90) \<or> (48 \<le> n \<and> n \<le> 57))"

definition is_space :: "char \<Rightarrow> bool" where
  \<comment> \<open>the class \<^verbatim>\<open>\s\<close>\<close>
  "is_space c = ((of_char c :: nat) \<in> {9, 10, 11, 12, 13, 32, 160})"

definition quoted :: "string \<Rightarrow> string" where
  \<comment> \<open>\<^verbatim>\<open>'${s}'\<close> inside a template literal\<close>
  "quoted s = CHR 0x27 # s @ [CHR 0x27]"

definition startsWith :: "string \<Rightarrow> string \<Rightarrow> bool" where
  "startsWith s p = (take (length p) s = p)"

fun includes_str :: "string \<Rightarrow> string \<Rightarrow> bool" where
  "includes_str [] p = (p = [])"
| "includes_str (c # cs) p = (startsWith (c # cs) p \<or> includes_str cs p)"

text \<open>
  A search for a regular expression tries the expression at every position, from the left.
  \<open>m\<close> is the expression anchored at the start of its argument; the result is the text
  before the match and what \<open>m\<close> returned there.
\<close>

fun regex_search :: "(string \<Rightarrow> 'a option) \<Rightarrow> string \<Rightarrow> (string \<times> 'a) option" where
  "regex_search m [] = map_option (Pair []) (m [])"
| "regex_search m (c # cs) =
     (case m (c # cs) of
        Some r \<Rightarrow> Some ([], r)
      | None \<Rightarrow> map_option (\<lambda>(pre, r). (c # pre, r)) (regex_search m cs))"

definition or_empty :: "string option \<Rightarrow> string" where
  \<comment> \<open>\<^verbatim>\<open>x || ''\<close> on an optional string\<close>
  "or_empty x = (case x of None \<Rightarrow> [] | Some s \<Rightarrow> s)"

definition truthy :: "string option \<Rightarrow> bool" where
  \<comment> \<open>an optional string as a condition: undefined and the empty string are false\<close>
  "truthy x = (case x of None \<Rightarrow> False | Some s \<Rightarrow> s \<noteq> [])"

definition replace_text :: "string \<Rightarrow> string \<Rightarrow> string \<Rightarrow> string" where
  \<comment> \<open>\<^verbatim>\<open>s.replace(p, r)\<close> with a string pattern: the first occurrence only\<close>
  "replace_text s p r =
     (case regex_search (\<lambda>t. if startsWith t p then Some (drop (length p) t) else None) s of
        None \<Rightarrow> s
      | Some (pre, post) \<Rightarrow> pre @ r @ post)"

definition not_bracket :: "char \<Rightarrow> bool" where
  "not_bracket c = (c \<noteq> CHR ''['' \<and> c \<noteq> CHR '']'')"

definition role_at :: "string \<Rightarrow> (string \<times> string option) option" where
  \<comment> \<open>\<^verbatim>\<open>/role=([^[\]]+)(?:\[([^\]]+)\])?/\<close> anchored: groups 1 and 2\<close>
  "role_at s =
     (if startsWith s ''role='' then
        (let rest = drop 5 s;
             g1 = takeWhile not_bracket rest;
             after = dropWhile not_bracket rest
         in if g1 = [] then None
            else Some (g1,
              (case after of
                 [] \<Rightarrow> None
               | b # inner \<Rightarrow>
                   (let g2 = takeWhile (\<lambda>c. c \<noteq> CHR '']'') inner;
                        close = dropWhile (\<lambda>c. c \<noteq> CHR '']'') inner
                    in if b = CHR ''['' \<and> g2 \<noteq> [] \<and> close \<noteq> [] then Some g2 else None))))
      else None)"

definition roleMatch :: "string \<Rightarrow> (string \<times> string option) option" where
  \<comment> \<open>\<^verbatim>\<open>target.match(/role=([^[\]]+)(?:\[([^\]]+)\])?/)\<close>\<close>
  "roleMatch t = map_option snd (regex_search role_at t)"

definition is_quote :: "char \<Rightarrow> bool" where
  "is_quote c = (c = CHR 0x27 \<or> c = CHR 0x22)"

definition name_at :: "string \<Rightarrow> (string \<times> string) option" where
  \<comment> \<open>\<^verbatim>\<open>/name=['"]([^'"]+)['"]/\<close> anchored: group 1 and the text after the match\<close>
  "name_at s =
     (if startsWith s ''name='' then
        (case drop 5 s of
           [] \<Rightarrow> None
         | q # rest \<Rightarrow>
             (let g = takeWhile (\<lambda>c. \<not> is_quote c) rest;
                  close = dropWhile (\<lambda>c. \<not> is_quote c) rest
              in if is_quote q \<and> g \<noteq> [] \<and> close \<noteq> [] then Some (g, tl close) else None))
      else None)"

definition replace_name :: "string \<Rightarrow> string" where
  \<comment> \<open>\<^verbatim>\<open>s.replace(/name=['"]([^'"]+)['"]/, '$1')\<close>\<close>
  "replace_name s =
     (case regex_search name_at s of
        None \<Rightarrow> s
      | Some (pre, g, post) \<Rightarrow> pre @ g @ post)"

definition contains_at :: "string \<Rightarrow> string option" where
  \<comment> \<open>\<^verbatim>\<open>/contains '([^']+)'/\<close> anchored: group 1\<close>
  "contains_at s =
     (if startsWith s (''contains '' @ [CHR 0x27]) then
        (let rest = drop 10 s;
             g = takeWhile (\<lambda>c. c \<noteq> CHR 0x27) rest;
             close = dropWhile (\<lambda>c. c \<noteq> CHR 0x27) rest
         in if g \<noteq> [] \<and> close \<noteq> [] then Some g else None)
      else None)"

definition textMatch :: "string \<Rightarrow> string option" where
  \<comment> \<open>\<^verbatim>\<open>data.match(/contains '([^']+)'/)\<close>: group 1\<close>
  "textMatch d = map_option snd (regex_search contains_at d)"

function collapse_spaces :: "string \<Rightarrow> string" where
  \<comment> \<open>\<^verbatim>\<open>s.replace(/\s+/g, ' ')\<close>\<close>
  "collapse_spaces [] = []"
| "collapse_spaces (c # cs) =
     (if is_space c then CHR '' '' # collapse_spaces (dropWhile is_space cs)
      else c # collapse_spaces cs)"
  by pat_completeness auto
termination
  by (relation "measure length") (auto simp: length_dropWhile_le less_Suc_eq_le)

definition testName :: "string \<Rightarrow> string" where
  \<comment> \<open>\<^verbatim>\<open>name.replace(/[^a-zA-Z0-9\s]/g, '').replace(/\s+/g, ' ')\<close>\<close>
  "testName n = collapse_spaces (filter (\<lambda>c. is_alnum c \<or> is_space c) n)"

section \<open>The code generator\<close>

definition file_header :: "string \<Rightarrow> string" where
  "file_header n =
     ''import { test, expect } from '@playwright/test';\<newline>\<newline>'' @
     ''test('' @ quoted (testName n) @ '', async ({ page }) => {\<newline>''"

definition file_footer :: string where
  "file_footer = ''});\<newline>''"

definition locator :: "string \<Rightarrow> string" where
  "locator t = ''  await page.locator('' @ quoted t @ '')''"

definition getByRole :: "string \<Rightarrow> string option \<Rightarrow> string" where
  "getByRole role nm =
     (case nm of
        Some n \<Rightarrow> ''  await page.getByRole('' @ quoted role @ '', { name: '' @ quoted n @ '' })''
      | None \<Rightarrow> ''  await page.getByRole('' @ quoted role @ '')'')"

definition role_name :: "string option \<Rightarrow> string option" where
  \<comment> \<open>\<^verbatim>\<open>roleMatch[2] ? roleMatch[2].replace(...) : undefined\<close>\<close>
  "role_name g2 = (if truthy g2 then Some (replace_name (the g2)) else None)"

definition expect_code :: "TestStep \<Rightarrow> string" where
  \<comment> \<open>the \<^verbatim>\<open>expect\<close> case, the same in both generators\<close>
  "expect_code step =
     ''  // Verify element\<newline>'' @
     (if truthy (data step) \<and> includes_str (the (data step)) ''visible'' then
        ''  await expect(page.locator('' @ quoted (target step) @ '')).toBeVisible();\<newline>''
      else if truthy (data step) \<and> includes_str (the (data step)) ''text'' then
        (case textMatch (the (data step)) of
           Some t \<Rightarrow>
             ''  await expect(page.locator('' @ quoted (target step) @ '')).toContainText('' @
               quoted t @ '');\<newline>''
         | None \<Rightarrow>
             ''  await expect(page.locator('' @ quoted (target step) @ '')).toBeVisible();\<newline>'')
      else
        ''  await expect(page.locator('' @ quoted (target step) @ '')).toBeVisible();\<newline>'')"

text \<open>
  The compile service's generator (the one with the \<^verbatim>\<open>type\<close> and \<^verbatim>\<open>wait\<close> cases).
  \<open>step_code\<close> is what one pass through the \<^verbatim>\<open>switch\<close> appends to \<^verbatim>\<open>testCode\<close>.
\<close>

definition step_code :: "CompileOptions \<Rightarrow> TestStep \<Rightarrow> string" where
  "step_code options step =
     (if action step = ''goto'' then
        ''  // Navigate to the page\<newline>'' @
        ''  await page.goto('' @ quoted (target step) @ '');\<newline>''
      else if action step = ''click'' then
        ''  // Click on element\<newline>'' @
        (if selectorStrategy options = RoleFirst \<and> startsWith (target step) ''role='' then
           (case roleMatch (target step) of
              Some (role, g2) \<Rightarrow>
                (if truthy (role_name g2)
                 then getByRole role (role_name g2) @ ''.click();\<newline>''
                 else getByRole role None @ ''.click();\<newline>'')
            | None \<Rightarrow> locator (target step) @ ''.click();\<newline>'')
         else if startsWith (target step) ''text='' then
           ''  await page.getByText('' @ quoted (replace_text (target step) ''text='' []) @
             '').click();\<newline>''
         else locator (target step) @ ''.click();\<newline>'')
      else if action step = ''fill'' \<or> action step = ''type'' then
        ''  // Fill input field\<newline>'' @
        (if selectorStrategy options = RoleFirst \<and> startsWith (target step) ''role='' then
           (case roleMatch (target step) of
              Some (role, g2) \<Rightarrow>
                (if truthy (role_name g2)
                 then getByRole role (role_name g2) @
                        ''.fill('' @ quoted (or_empty (data step)) @ '');\<newline>''
                 else locator (target step) @
                        ''.fill('' @ quoted (or_empty (data step)) @ '');\<newline>'')
            | None \<Rightarrow>
                locator (target step) @ ''.fill('' @ quoted (or_empty (data step)) @ '');\<newline>'')
         else locator (target step) @ ''.fill('' @ quoted (or_empty (data step)) @ '');\<newline>'')
      else if action step = ''expect'' then expect_code step
      else if action step = ''wait'' then
        ''  // Wait for element\<newline>'' @
        ''  await page.waitForSelector('' @ quoted (target step) @ '');\<newline>''
      else
        ''  // '' @ action step @ '': '' @ description step @ ''\<newline>'' @
        locator (target step) @ ''.'' @ action step @ ''();\<newline>'')"

text \<open>
  The \<^verbatim>\<open>forEach\<close> over the steps, with the text built so far as the accumulator:
  \<open>len\<close> is \<^verbatim>\<open>scenario.steps.length\<close> and \<open>index\<close> the callback's second argument.
\<close>

fun forEach_steps ::
  "(TestStep \<Rightarrow> string) \<Rightarrow> nat \<Rightarrow> nat \<Rightarrow> TestStep list \<Rightarrow> string \<Rightarrow> string" where
  "forEach_steps body len index [] testCode = testCode"
| "forEach_steps body len index (step # rest) testCode =
     (let testCode1 = testCode @ body step;
          testCode2 = (if int index < int len - 1 then testCode1 @ ''\<newline>'' else testCode1)
      in forEach_steps body len (index + 1) rest testCode2)"

definition generatePlaywrightTest :: "TestScenario \<Rightarrow> CompileOptions \<Rightarrow> string" where
  "generatePlaywrightTest scenario options =
     forEach_steps (step_code options) (length (steps scenario)) 0 (steps scenario)
       (file_header (name scenario)) @ file_footer"

text \<open>
  The combined API server's generator: no \<^verbatim>\<open>type\<close> and no \<^verbatim>\<open>wait\<close> case, a role
  without a name is still looked up by role in \<^verbatim>\<open>fill\<close>, and the \<^verbatim>\<open>default\<close> branch writes
  two comments.
\<close>

definition step_code_combined :: "CompileOptions \<Rightarrow> TestStep \<Rightarrow> string" where
  "step_code_combined options step =
     (if action step = ''goto'' then
        ''  // Navigate to the page\<newline>'' @
        ''  await page.goto('' @ quoted (target step) @ '');\<newline>''
      else if action step = ''fill'' then
        ''  // Fill input field\<newline>'' @
        (if selectorStrategy options = RoleFirst \<and> startsWith (target step) ''role='' then
           (case roleMatch (target step) of
              Some (role, g2) \<Rightarrow>
                (if truthy (role_name g2)
                 then getByRole role (role_name g2) @
                        ''.fill('' @ quoted (or_empty (data step)) @ '');\<newline>''
                 else getByRole role None @
                        ''.fill('' @ quoted (or_empty (data step)) @ '');\<newline>'')
            | None \<Rightarrow>
                locator (target step) @ ''.fill('' @ quoted (or_empty (data step)) @ '');\<newline>'')
         else locator (target step) @ ''.fill('' @ quoted (or_empty (data step)) @ '');\<newline>'')
      else if action step = ''click'' then
        ''  // Click on element\<newline>'' @
        (if selectorStrategy options = RoleFirst \<and> startsWith (target step) ''role='' then
           (case roleMatch (target step) of
              Some (role, g2) \<Rightarrow>
                (if truthy (role_name g2)
                 then getByRole role (role_name g2) @ ''.click();\<newline>''
                 else getByRole role None @ ''.click();\<newline>'')
            | None \<Rightarrow>
                (if startsWith (target step) ''text='' then
                   ''  await page.getByText('' @ quoted (replace_text (target step) ''text='' []) @
                     '').click();\<newline>''
                 else locator (target step) @ ''.click();\<newline>''))
         else if startsWith (target step) ''text='' then
           ''  await page.getByText('' @ quoted (replace_text (target step) ''text='' []) @
             '').click();\<newline>''
         else locator (target step) @ ''.click();\<newline>'')
      else if action step = ''expect'' then expect_code step
      else
        ''  // Unknown action: '' @ action step @ ''\<newline>'' @
        ''  // '' @ description step @ ''\<newline>'')"

definition generatePlaywrightTest_combined :: "TestScenario \<Rightarrow> CompileOptions \<Rightarrow> string" where
  "generatePlaywrightTest_combined scenario options =
     forEach_steps (step_code_combined options) (length (steps scenario)) 0 (steps scenario)
       (file_header (name scenario)) @ file_footer"

text \<open>
  The combined API server checks the scenarios it has generated before it compiles them:
  \<^verbatim>\<open>validateScenarioActions\<close> goes through the array of scenarios and through the steps of
  each, and answers false at the first step whose action is not an allowed one. The
  server's one call of its generator comes after this check has answered true.
\<close>

definition ALLOWED_ACTIONS :: "string list" where
  "ALLOWED_ACTIONS = [''goto'', ''fill'', ''click'', ''expect'']"

fun steps_allowed :: "TestStep list \<Rightarrow> bool" where
  \<comment> \<open>the inner loop of \<^verbatim>\<open>validateScenarioActions\<close>\<close>
  "steps_allowed [] = True"
| "steps_allowed (step # rest) =
     (if \<not> List.member ALLOWED_ACTIONS (action step) then False else steps_allowed rest)"

fun validateScenarioActions :: "TestScenario list \<Rightarrow> bool" where
  "validateScenarioActions [] = True"
| "validateScenarioActions (scenario # rest) =
     (if \<not> steps_allowed (steps scenario) then False else validateScenarioActions rest)"

section \<open>The automation session (MCPClient)\<close>

text \<open>
  A thrown value is an \<^verbatim>\<open>Error\<close> with its message, or some other value. Functions that can
  throw return a sum, \<open>Inl\<close> the thrown value.
\<close>

datatype exn = Error string | NonError

definition error_message :: "exn \<Rightarrow> string \<Rightarrow> string" where
  \<comment> \<open>\<^verbatim>\<open>error instanceof Error ? error.message : fallback\<close>\<close>
  "error_message e fallback = (case e of Error m \<Rightarrow> m | NonError \<Rightarrow> fallback)"

datatype number = Number int | NaN

record MCPExecutionResult =
  success :: bool
  improvedSelector :: "string option"
  error :: "string option"
  executionTime :: "number option"

text \<open>
  What \<^verbatim>\<open>client.callTool\<close> resolves to, as far as the client reads it: \<^verbatim>\<open>content\<close> is
  \<open>None\<close> when the property is absent or not an array; an item is text or of another type.
  The arguments of a call are strings and numbers.
\<close>

datatype content_item = TextContent string | OtherContent

record tool_result =
  content :: "content_item list option"

datatype arg_value = StrArg string | NumArg number

type_synonym tool_args = "(string \<times> arg_value) list"

text \<open>
  \<^verbatim>\<open>JSON.parse(content.text)\<close> with the properties the client reads from the result: a syntax
  error, \<^verbatim>\<open>null\<close> (reading a property of it throws a \<^verbatim>\<open>TypeError\<close>), or a value with
  its \<^verbatim>\<open>improvedSelector\<close> (typed as a string by \<^verbatim>\<open>MCPExecutionResult\<close>) and its
  \<^verbatim>\<open>executionTime\<close>, each \<open>None\<close> when undefined. \<^verbatim>\<open>parsed.success || true\<close> is true
  whatever \<^verbatim>\<open>parsed.success\<close> is, so that property is not kept.
\<close>

record parsed_reply =
  p_improvedSelector :: "string option"
  p_executionTime :: "number option"

datatype parse_result = SyntaxError | ParsedNull | Parsed parsed_reply

text \<open>
  The world outside the process: the automation backend behind \<^verbatim>\<open>client.connect\<close>
  (\<open>Some\<close> what it throws) and \<^verbatim>\<open>callTool\<close>, which answers or throws and moves to a new
  state, the clock behind \<^verbatim>\<open>Date.now()\<close>, and the two
  built-in functions \<^verbatim>\<open>JSON.parse\<close> and \<^verbatim>\<open>parseInt\<close>.
\<close>

record 's world =
  connectTransport :: "'s \<Rightarrow> exn option \<times> 's"
  callTool :: "'s \<Rightarrow> string \<Rightarrow> tool_args \<Rightarrow> (exn + tool_result) \<times> 's"
  now :: "'s \<Rightarrow> int"
  JSON_parse :: "string \<Rightarrow> parse_result"
  parseInt :: "string \<Rightarrow> number"

record MCPClient =
  has_client :: bool
  isConnected :: bool
  has_transport :: bool

definition first_text :: "tool_result \<Rightarrow> string option" where
  \<comment> \<open>\<^verbatim>\<open>result.content[0].text\<close> when the content is a non-empty array whose first item is text\<close>
  "first_text r =
     (case content r of
        Some (TextContent t # _) \<Rightarrow> Some t
      | _ \<Rightarrow> None)"

definition number_or :: "number option \<Rightarrow> number \<Rightarrow> number" where
  \<comment> \<open>\<^verbatim>\<open>x || d\<close> on an optional number: undefined, zero and NaN are false\<close>
  "number_or x d =
     (case x of
        Some (Number n) \<Rightarrow> (if n \<noteq> 0 then Number n else d)
      | _ \<Rightarrow> d)"

definition string_or :: "string option \<Rightarrow> string \<Rightarrow> string" where
  \<comment> \<open>\<^verbatim>\<open>x || d\<close> on an optional string\<close>
  "string_or x d = (if truthy x then the x else d)"

definition failure :: "string \<Rightarrow> MCPExecutionResult" where
  \<comment> \<open>\<^verbatim>\<open>{ success: false, error: msg }\<close>\<close>
  "failure msg = \<lparr>success = False, improvedSelector = None, error = Some msg, executionTime = None\<rparr>"

definition validateSelector ::
  "'s world \<Rightarrow> MCPClient \<Rightarrow> 's \<Rightarrow> string \<Rightarrow> (exn + MCPExecutionResult) \<times> 's" where
  "validateSelector w c s selector =
     (if \<not> isConnected c \<or> \<not> has_client c then
        (Inr (failure ''Not connected to MCP server''), s)
      else
        (case callTool w s ''playwright_validate_selector''
                 [(''selector'', StrArg selector), (''context'', StrArg ''validation'')] of
           (Inl e, s') \<Rightarrow> (Inr (failure (error_message e ''Unknown error'')), s')
         | (Inr result, s') \<Rightarrow>
             (case first_text result of
                Some t \<Rightarrow>
                  (case JSON_parse w t of
                     Parsed p \<Rightarrow>
                       (Inr \<lparr>success = True,
                             improvedSelector = Some (string_or (p_improvedSelector p) selector),
                             error = None,
                             executionTime = Some (number_or (p_executionTime p) (Number 0))\<rparr>, s')
                   | _ \<Rightarrow>
                       (Inr \<lparr>success = True, improvedSelector = Some t, error = None,
                             executionTime = Some (Number 0)\<rparr>, s'))
              | None \<Rightarrow>
                  (Inr \<lparr>success = True, improvedSelector = Some selector, error = None,
                        executionTime = Some (Number 0)\<rparr>, s'))))"

text \<open>
  The six private tool wrappers have one shape: call the tool; a throw gives a failure with
  the error's message; a first text item that parses gives the parsed properties with
  defaults; anything else gives the defaults. \<open>sel\<close> is the selector the wrapper falls back
  to for \<^verbatim>\<open>improvedSelector\<close> (\<open>None\<close> for \<^verbatim>\<open>navigate\<close> and \<^verbatim>\<open>wait\<close>, which return
  none), \<open>dflt\<close> its default execution time and \<open>msg\<close> its fallback error message.
\<close>

definition tool_wrapper ::
  "'s world \<Rightarrow> 's \<Rightarrow> string \<Rightarrow> tool_args \<Rightarrow> string option \<Rightarrow> number \<Rightarrow> string \<Rightarrow>
     (exn + MCPExecutionResult) \<times> 's" where
  "tool_wrapper w s tool args sel dflt msg =
     (case callTool w s tool args of
        (Inl e, s') \<Rightarrow> (Inr (failure (error_message e msg)), s')
      | (Inr result, s') \<Rightarrow>
          (case first_text result of
             Some t \<Rightarrow>
               (case JSON_parse w t of
                  Parsed p \<Rightarrow>
                    (Inr \<lparr>success = True,
                          improvedSelector = map_option (string_or (p_improvedSelector p)) sel,
                          error = None,
                          executionTime = Some (number_or (p_executionTime p) dflt)\<rparr>, s')
                | _ \<Rightarrow>
                    (Inr \<lparr>success = True, improvedSelector = sel, error = None,
                          executionTime = Some dflt\<rparr>, s'))
           | None \<Rightarrow>
               (Inr \<lparr>success = True, improvedSelector = sel, error = None,
                     executionTime = Some dflt\<rparr>, s')))"

definition navigate :: "'s world \<Rightarrow> 's \<Rightarrow> string \<Rightarrow> (exn + MCPExecutionResult) \<times> 's" where
  "navigate w s url =
     tool_wrapper w s ''playwright_navigate'' [(''url'', StrArg url)] None (Number 1000)
       ''Navigation failed''"

definition click :: "'s world \<Rightarrow> 's \<Rightarrow> string \<Rightarrow> (exn + MCPExecutionResult) \<times> 's" where
  "click w s selector =
     tool_wrapper w s ''playwright_click'' [(''selector'', StrArg selector)] (Some selector)
       (Number 500) ''Click failed''"

definition fill ::
  "'s world \<Rightarrow> 's \<Rightarrow> string \<Rightarrow> string option \<Rightarrow> (exn + MCPExecutionResult) \<times> 's" where
  "fill w s selector d =
     tool_wrapper w s ''playwright_fill''
       [(''selector'', StrArg selector), (''value'', StrArg (or_empty d))] (Some selector)
       (Number 500) ''Fill failed''"

definition expect :: "'s world \<Rightarrow> 's \<Rightarrow> string \<Rightarrow> (exn + MCPExecutionResult) \<times> 's" where
  "expect w s selector =
     tool_wrapper w s ''playwright_expect'' [(''selector'', StrArg selector)] (Some selector)
       (Number 300) ''Expect failed''"

definition wait ::
  "'s world \<Rightarrow> 's \<Rightarrow> string \<Rightarrow> string option \<Rightarrow> (exn + MCPExecutionResult) \<times> 's" where
  "wait w s selector duration =
     tool_wrapper w s ''playwright_wait''
       [(''selector'', StrArg selector),
        (''timeout'', NumArg (parseInt w (string_or duration ''1000'')))]
       None (parseInt w (string_or duration ''1000'')) ''Wait failed''"

definition type_text ::
  "'s world \<Rightarrow> 's \<Rightarrow> string \<Rightarrow> string option \<Rightarrow> (exn + MCPExecutionResult) \<times> 's" where
  "type_text w s selector d =
     tool_wrapper w s ''playwright_type''
       [(''selector'', StrArg selector), (''text'', StrArg (or_empty d))] (Some selector)
       (Number 500) ''Type failed''"

definition executeStep ::
  "'s world \<Rightarrow> MCPClient \<Rightarrow> 's \<Rightarrow> string \<Rightarrow> string \<Rightarrow> string option \<Rightarrow>
     (exn + MCPExecutionResult) \<times> 's" where
  "executeStep w c s act tgt d =
     (if \<not> isConnected c \<or> \<not> has_client c then
        (Inr (failure ''Not connected to MCP server''), s)
      else
        (case (if act = ''goto'' then navigate w s tgt
               else if act = ''click'' then click w s tgt
               else if act = ''fill'' then fill w s tgt d
               else if act = ''expect'' then expect w s tgt
               else if act = ''wait'' then wait w s tgt d
               else if act = ''type'' then type_text w s tgt d
               else (Inr (failure (''Unknown action: '' @ act)), s)) of
           (Inl e, s') \<Rightarrow> (Inr (failure (error_message e ''Unknown error'')), s')
         | (Inr r, s') \<Rightarrow> (Inr r, s')))"

section \<open>The selector-repair orchestrator (LLMCompiler)\<close>

text \<open>
  The orchestrator reaches the session through two methods of \<^verbatim>\<open>this.mcpClient\<close>. It is
  modelled over any pair of methods, each of which may throw, so that its own
  \<^verbatim>\<open>try\<close>/\<^verbatim>\<open>catch\<close> blocks are branches of the model; \<open>MCPClient_methods\<close> is the pair
  the class above provides. Logging and the one-second pause between steps have no effect on
  the values and are left out.
\<close>

record 's client_methods =
  call_validateSelector :: "'s \<Rightarrow> string \<Rightarrow> (exn + MCPExecutionResult) \<times> 's"
  call_executeStep ::
    "'s \<Rightarrow> string \<Rightarrow> string \<Rightarrow> string option \<Rightarrow> (exn + MCPExecutionResult) \<times> 's"

definition MCPClient_methods :: "'s world \<Rightarrow> MCPClient \<Rightarrow> 's client_methods" where
  "MCPClient_methods w c =
     \<lparr>call_validateSelector = validateSelector w c, call_executeStep = executeStep w c\<rparr>"

definition lower :: "char \<Rightarrow> char" where
  "lower c = (let n = (of_char c :: nat) in if 65 \<le> n \<and> n \<le> 90 then char_of (n + 32) else c)"

definition strip_prefix_ci :: "string \<Rightarrow> string \<Rightarrow> string" where
  \<comment> \<open>\<^verbatim>\<open>s.replace(/^p/i, '')\<close> for a pattern \<open>p\<close> of lower-case letters and spaces\<close>
  "strip_prefix_ci p s = (if map lower (take (length p) s) = p then drop (length p) s else s)"

definition goto_first ::
  "'s client_methods \<Rightarrow> TestStep \<Rightarrow> string \<Rightarrow> bool \<Rightarrow> 's \<Rightarrow> (exn + string) \<times> 's" where
  \<comment> \<open>the first \<^verbatim>\<open>if\<close> of the \<^verbatim>\<open>try\<close> block: the description it leaves\<close>
  "goto_first m step url isFirstStep s =
     (if isFirstStep \<and> action step = ''goto'' then
        (case call_executeStep m s ''goto'' url None of
           (Inl e, s') \<Rightarrow> (Inl e, s')
         | (Inr result, s') \<Rightarrow>
             (Inr (if success result then ''Successfully navigated to '' @ url
                   else description step), s'))
      else (Inr (description step), s))"

definition validated_target ::
  "'s client_methods \<Rightarrow> TestStep \<Rightarrow> 's \<Rightarrow> (exn + string) \<times> 's" where
  \<comment> \<open>\<^verbatim>\<open>validateSelector(step.target)\<close> and the target it leaves in \<^verbatim>\<open>improvedTarget\<close>\<close>
  "validated_target m step s =
     (case call_validateSelector m s (target step) of
        (Inl e, s') \<Rightarrow> (Inl e, s')
      | (Inr v, s') \<Rightarrow>
          (Inr (if success v \<and> truthy (improvedSelector v) then the (improvedSelector v)
                else target step), s'))"

definition success_description :: "TestStep \<Rightarrow> string \<Rightarrow> string \<Rightarrow> string" where
  \<comment> \<open>the description after a successful \<^verbatim>\<open>click\<close>, \<^verbatim>\<open>fill\<close> or \<^verbatim>\<open>expect\<close>\<close>
  "success_description step improvedTarget improvedDescription =
     (if action step = ''click'' then
        ''Successfully clicked on '' @ [CHR 0x22] @
          strip_prefix_ci ''click '' (strip_prefix_ci ''click on '' (description step)) @
          [CHR 0x22] @ '' (validated selector: '' @ improvedTarget @ '')''
      else if action step = ''fill'' then
        ''Successfully filled '' @ [CHR 0x22] @
          strip_prefix_ci ''fill '' (strip_prefix_ci ''enter '' (description step)) @
          [CHR 0x22] @ '' field (validated selector: '' @ improvedTarget @ '')''
      else if action step = ''expect'' then
        ''Successfully verified element exists (validated selector: '' @ improvedTarget @ '')''
      else improvedDescription)"

definition try_block ::
  "'s client_methods \<Rightarrow> TestStep \<Rightarrow> string \<Rightarrow> bool \<Rightarrow> 's \<Rightarrow> (exn + string \<times> string) \<times> 's" where
  \<comment> \<open>the \<^verbatim>\<open>try\<close> block of \<^verbatim>\<open>executeStepWithMCP\<close>: \<^verbatim>\<open>improvedTarget\<close> and
      \<^verbatim>\<open>improvedDescription\<close> at its end, or what it threw\<close>
  "try_block m step url isFirstStep s =
     (case goto_first m step url isFirstStep s of
        (Inl e, s1) \<Rightarrow> (Inl e, s1)
      | (Inr d0, s1) \<Rightarrow>
          if action step = ''click'' \<or> action step = ''fill'' \<or> action step = ''expect'' then
            (case validated_target m step s1 of
               (Inl e, s2) \<Rightarrow> (Inl e, s2)
             | (Inr t, s2) \<Rightarrow>
                 (case call_executeStep m s2 (action step) t (data step) of
                    (Inl e, s3) \<Rightarrow> (Inl e, s3)
                  | (Inr r, s3) \<Rightarrow>
                      (Inr (t, if success r then success_description step t d0
                               else description step), s3)))
          else if action step = ''wait'' then
            (case (if target step \<noteq> ''#body'' then validated_target m step s1
                   else (Inr (target step), s1)) of
               (Inl e, s2) \<Rightarrow> (Inl e, s2)
             | (Inr t, s2) \<Rightarrow>
                 (case call_executeStep m s2 ''wait'' t (data step) of
                    (Inl e, s3) \<Rightarrow> (Inl e, s3)
                  | (Inr r, s3) \<Rightarrow>
                      (Inr (t, if success r
                               then ''Successfully waited for element (validated selector: '' @ t @ '')''
                               else d0), s3)))
          else if action step = ''type'' then
            (case validated_target m step s1 of
               (Inl e, s2) \<Rightarrow> (Inl e, s2)
             | (Inr t, s2) \<Rightarrow>
                 (case call_executeStep m s2 ''type'' t (data step) of
                    (Inl e, s3) \<Rightarrow> (Inl e, s3)
                  | (Inr r, s3) \<Rightarrow>
                      (Inr (t, if success r
                               then ''Successfully typed text (validated selector: '' @ t @ '')''
                               else d0), s3)))
          else (Inr (target step, d0), s1))"

definition executeStepWithMCP ::
  "'s client_methods \<Rightarrow> TestStep \<Rightarrow> string \<Rightarrow> bool \<Rightarrow> 's \<Rightarrow> (exn + TestStep) \<times> 's" where
  "executeStepWithMCP m step url isFirstStep s =
     (case try_block m step url isFirstStep s of
        (Inl e, s') \<Rightarrow>
          (Inr (step\<lparr>target := target step, description := description step\<rparr>), s')
      | (Inr (improvedTarget, improvedDescription), s') \<Rightarrow>
          (Inr (step\<lparr>target := improvedTarget, description := improvedDescription\<rparr>), s'))"

text \<open>
  The \<^verbatim>\<open>for\<close> loop of \<^verbatim>\<open>executeScenarioWithMCP\<close> from index \<open>i\<close>, with \<^verbatim>\<open>improvedSteps\<close>
  as the accumulator.
\<close>

fun executeScenario_loop ::
  "'s client_methods \<Rightarrow> string \<Rightarrow> nat \<Rightarrow> TestStep list \<Rightarrow> 's \<Rightarrow> TestStep list \<Rightarrow>
     TestStep list \<times> 's" where
  "executeScenario_loop m url i [] s improvedSteps = (improvedSteps, s)"
| "executeScenario_loop m url i (step # rest) s improvedSteps =
     (case executeStepWithMCP m step url (i = 0) s of
        (Inr improvedStep, s') \<Rightarrow>
          executeScenario_loop m url (i + 1) rest s' (improvedSteps @ [improvedStep])
      | (Inl e, s') \<Rightarrow>
          executeScenario_loop m url (i + 1) rest s' (improvedSteps @ [step]))"

definition executeScenarioWithMCP ::
  "'s client_methods \<Rightarrow> string \<Rightarrow> TestStep list \<Rightarrow> 's \<Rightarrow> (exn + TestStep list) \<times> 's" where
  "executeScenarioWithMCP m url stps s =
     (case executeScenario_loop m url 0 stps s [] of
        (improvedSteps, s') \<Rightarrow> (Inr improvedSteps, s'))"

function show_nat :: "nat \<Rightarrow> string" where
  "show_nat n =
     (if n < 10 then [char_of (48 + n)] else show_nat (n div 10) @ [char_of (48 + n mod 10)])"
  by pat_completeness auto
termination
  by (relation "measure id") auto

declare show_nat.simps [simp del]

definition show_int :: "int \<Rightarrow> string" where
  \<comment> \<open>an integer in a template literal\<close>
  "show_int i = (if i < 0 then CHR ''-'' # show_nat (nat (- i)) else show_nat (nat i))"

text \<open>
  \<^verbatim>\<open>validateSelectorsWithMCP\<close> starts one callback per scenario and awaits them together, so
  the callbacks' tool calls reach the one backend interleaved, in an order the event loop
  decides. The callback of scenario \<open>i\<close> therefore runs from a world state \<open>starts i\<close> of its
  own: whatever the interleaving, what one callback sees of the backend and the clock is
  a run from some such state. \<open>Promise_all\<close> rejects when a callback does.
\<close>

definition scenario_callback ::
  "'s client_methods \<Rightarrow> ('s \<Rightarrow> int) \<Rightarrow> string \<Rightarrow> TestScenario \<Rightarrow> 's \<Rightarrow> exn + TestScenario" where
  "scenario_callback m clock url scenario s =
     (let scenarioStartTime = clock s
      in case executeScenarioWithMCP m url (steps scenario) s of
           (Inr improvedSteps, s') \<Rightarrow>
             Inr (scenario\<lparr>steps := improvedSteps,
                   timeTakenToCompile := Some (show_int (clock s' - scenarioStartTime) @ ''ms'')\<rparr>)
         | (Inl e, s') \<Rightarrow> Inr scenario)"

fun Promise_all :: "(exn + 'a) list \<Rightarrow> exn + 'a list" where
  "Promise_all [] = Inr []"
| "Promise_all (Inl e # ps) = Inl e"
| "Promise_all (Inr x # ps) = (case Promise_all ps of Inl e \<Rightarrow> Inl e | Inr xs \<Rightarrow> Inr (x # xs))"

definition validateSelectorsWithMCP ::
  "'s client_methods \<Rightarrow> ('s \<Rightarrow> int) \<Rightarrow> string \<Rightarrow> TestScenario list \<Rightarrow> (nat \<Rightarrow> 's) \<Rightarrow>
     exn + TestScenario list" where
  "validateSelectorsWithMCP m clock url scenarios starts =
     Promise_all
       (map (\<lambda>(i, scenario). scenario_callback m clock url scenario (starts i))
          (enumerate 0 scenarios))"

text \<open>
  The session tier: the block of \<^verbatim>\<open>generateScenarios\<close> that connects, repairs when
  connected, falls back to the scenarios it was given, and disconnects. Its result is
  \<^verbatim>\<open>improvedScenarios\<close>, \<^verbatim>\<open>mcpValidationSuccessful\<close> and the client it leaves.
\<close>

definition connect :: "'s world \<Rightarrow> MCPClient \<Rightarrow> 's \<Rightarrow> (bool \<times> MCPClient) \<times> 's" where
  "connect w c s =
     (case connectTransport w s of
        (None, s') \<Rightarrow>
          ((True, c\<lparr>has_transport := True, has_client := True, isConnected := True\<rparr>), s')
      | (Some e, s') \<Rightarrow>
          ((False, c\<lparr>has_transport := True, has_client := True, isConnected := False\<rparr>), s'))"

definition disconnect :: "MCPClient \<Rightarrow> MCPClient" where
  "disconnect c = c\<lparr>has_client := False, has_transport := False, isConnected := False\<rparr>"

definition mcp_session ::
  "'s world \<Rightarrow> MCPClient \<Rightarrow> string \<Rightarrow> TestScenario list \<Rightarrow> 's \<Rightarrow> (nat \<Rightarrow> 's) \<Rightarrow>
     TestScenario list \<times> bool \<times> MCPClient" where
  "mcp_session w c url scenarios s starts =
     (case connect w c s of
        ((connected, c'), s') \<Rightarrow>
          (if connected then
             (case validateSelectorsWithMCP (MCPClient_methods w c') (now w) url scenarios starts of
                Inr improvedScenarios \<Rightarrow> (improvedScenarios, True, disconnect c')
              | Inl mcpError \<Rightarrow> (scenarios, False, disconnect c'))
           else (scenarios, False, disconnect c')))"

section \<open>The scenario generator (GeminiService and generateGeminiScenarios)\<close>

text \<open>
  The answer of the network to the one request: \<^verbatim>\<open>fetch\<close> rejects, or resolves to a response
  with its \<^verbatim>\<open>ok\<close> flag, its status, and what \<^verbatim>\<open>text()\<close> and \<^verbatim>\<open>json()\<close> give (each may
  throw). A \<^verbatim>\<open>GeminiResponse\<close> is read through \<^verbatim>\<open>candidates\<close> (\<open>None\<close> when absent) and the
  texts of each candidate's \<^verbatim>\<open>content.parts\<close>.
\<close>

record candidate =
  parts :: "string list"

record GeminiResponse =
  candidates :: "candidate list option"

record http_response =
  ok :: bool
  status :: nat
  text_body :: "exn + string"
  json_body :: "exn + GeminiResponse"

datatype fetch_outcome = FetchRejects exn | FetchResolves http_response

record Credentials =
  username :: string
  password :: "string option"
  secretRef :: "string option"

text \<open>\<^verbatim>\<open>PRDIntake\<close>; its fields \<^verbatim>\<open>url\<close> and \<^verbatim>\<open>runId\<close> are \<open>intake_url\<close> and \<open>intake_runId\<close>.\<close>

record PRDIntake =
  objective :: string
  intake_url :: string
  credentials :: "Credentials option"
  intake_runId :: "string option"

text \<open>
  The reply of the text service after \<^verbatim>\<open>JSON.parse\<close>, through the properties the generator
  reads: every property the interfaces type as a string is an optional string, \<^verbatim>\<open>steps\<close> is
  \<open>None\<close> when the scenario has none to map over, and \<^verbatim>\<open>scenarios\<close> is \<open>None\<close> when the
  property is absent or not an array. An element of either array is \<open>None\<close> when it is
  \<^verbatim>\<open>null\<close>: reading a property of it throws.
\<close>

record raw_step =
  raw_action :: "string option"
  raw_target :: "string option"
  raw_data :: "string option"
  raw_description :: "string option"

record raw_scenario =
  raw_id :: "string option"
  raw_name :: "string option"
  raw_steps :: "raw_step option list option"
  raw_tags :: "string list option"

record parsed_response =
  scenarios :: "raw_scenario option list option"

text \<open>
  The text service as the generator meets it: the network's answer to the request built from
  the objective, the URL and the credentials (the prompt itself is not modelled), and
  \<^verbatim>\<open>JSON.parse\<close> on a reply text, which gives a value or throws.
\<close>

record gemini_world =
  fetch :: "string \<Rightarrow> string \<Rightarrow> Credentials option \<Rightarrow> fetch_outcome"
  JSON_parse_reply :: "string \<Rightarrow> exn + parsed_response"

definition generateTestScenarios ::
  "gemini_world \<Rightarrow> string \<Rightarrow> string \<Rightarrow> Credentials option \<Rightarrow> exn + string" where
  \<comment> \<open>every throw inside is caught, logged and thrown again\<close>
  "generateTestScenarios g obj url creds =
     (case fetch g obj url creds of
        FetchRejects e \<Rightarrow> Inl e
      | FetchResolves response \<Rightarrow>
          if \<not> ok response then
            (case text_body response of
               Inl e \<Rightarrow> Inl e
             | Inr errorText \<Rightarrow>
                 Inl (Error (''Gemini API error: '' @ show_nat (status response) @ '' - '' @
                             errorText)))
          else
            (case json_body response of
               Inl e \<Rightarrow> Inl e
             | Inr d \<Rightarrow>
                 (case candidates d of
                    None \<Rightarrow> Inl (Error ''No response from Gemini API'')
                  | Some [] \<Rightarrow> Inl (Error ''No response from Gemini API'')
                  | Some (cand # _) \<Rightarrow>
                      (case parts cand of
                         [] \<Rightarrow> Inl (Error ''Cannot read properties of undefined (reading 'text')'')
                       | generatedText # _ \<Rightarrow> Inr generatedText))))"

definition fence :: string where
  \<comment> \<open>three backquotes\<close>
  "fence = replicate 3 (CHR 0x60)"

fun lazy_until_fence :: "string \<Rightarrow> string option" where
  \<comment> \<open>\<^verbatim>\<open>([\s\S]*?)\s*\<close> and the closing fence: the shortest group\<close>
  "lazy_until_fence [] = (if startsWith [] fence then Some [] else None)"
| "lazy_until_fence (c # cs) =
     (if startsWith (dropWhile is_space (c # cs)) fence then Some []
      else map_option ((#) c) (lazy_until_fence cs))"

definition fence_at :: "string \<Rightarrow> string option" where
  \<comment> \<open>the expression that finds a fenced \<^verbatim>\<open>json\<close> block, anchored: group 1\<close>
  "fence_at s =
     (if startsWith s (fence @ ''json'') then lazy_until_fence (dropWhile is_space (drop 7 s))
      else None)"

definition object_match :: "string \<Rightarrow> string option" where
  \<comment> \<open>\<^verbatim>\<open>/\{[\s\S]*\}/\<close>: from the first opening brace to the last closing brace after it\<close>
  "object_match t =
     (case dropWhile (\<lambda>c. c \<noteq> CHR ''{'') t of
        [] \<Rightarrow> None
      | b # rest \<Rightarrow>
          (let upto = rev (dropWhile (\<lambda>c. c \<noteq> CHR ''}'') (rev rest))
           in if upto = [] then None else Some (b # upto)))"

definition parseGeminiResponse :: "gemini_world \<Rightarrow> string \<Rightarrow> exn + parsed_response" where
  "parseGeminiResponse g response =
     (let jsonText = (case regex_search fence_at response of
                        Some (pre, g1) \<Rightarrow> g1
                      | None \<Rightarrow> response)
      in case (case object_match jsonText of
                 Some obj \<Rightarrow> JSON_parse_reply g obj
               | None \<Rightarrow> Inl (Error ''Could not extract JSON from Gemini response'')) of
           Inl e \<Rightarrow>
             Inl (Error (''Failed to parse Gemini response: '' @ error_message e ''Unknown error''))
         | Inr parsed \<Rightarrow> Inr parsed)"

fun map_throwing :: "('a \<Rightarrow> exn + 'b) \<Rightarrow> 'a list \<Rightarrow> exn + 'b list" where
  \<comment> \<open>\<^verbatim>\<open>Array.prototype.map\<close> with a callback that may throw: the first throw ends it\<close>
  "map_throwing f [] = Inr []"
| "map_throwing f (x # xs) =
     (case f x of
        Inl e \<Rightarrow> Inl e
      | Inr y \<Rightarrow> (case map_throwing f xs of Inl e \<Rightarrow> Inl e | Inr ys \<Rightarrow> Inr (y # ys)))"

definition convert_step :: "nat \<Rightarrow> raw_step option \<Rightarrow> exn + TestStep" where
  \<comment> \<open>the callback of \<^verbatim>\<open>scenario.steps.map\<close>; \<^verbatim>\<open>step.action\<close> throws when the step is \<^verbatim>\<open>null\<close>\<close>
  "convert_step stepIndex step =
     (case step of
        None \<Rightarrow> Inl (Error ''Cannot read properties of null (reading 'action')'')
      | Some st \<Rightarrow>
          Inr \<lparr>action = string_or (raw_action st) ''click'',
               target = string_or (raw_target st) ''#body'',
               data = raw_data st,
               description = string_or (raw_description st)
                               (''Step '' @ show_nat (stepIndex + 1))\<rparr>)"

definition convert_scenario :: "nat \<Rightarrow> raw_scenario option \<Rightarrow> exn + TestScenario" where
  \<comment> \<open>the callback of \<^verbatim>\<open>scenarios.map\<close>; \<^verbatim>\<open>scenario.id\<close> throws when the scenario is \<^verbatim>\<open>null\<close>,
      \<^verbatim>\<open>scenario.steps.map\<close> throws when there are no steps, and a throw of the inner callback
      ends the outer one\<close>
  "convert_scenario index scenario =
     (case scenario of
        None \<Rightarrow> Inl (Error ''Cannot read properties of null (reading 'id')'')
      | Some scn \<Rightarrow>
          (case raw_steps scn of
             None \<Rightarrow> Inl (Error ''Cannot read properties of undefined (reading 'map')'')
           | Some stps \<Rightarrow>
               (case map_throwing (\<lambda>(stepIndex, step). convert_step stepIndex step)
                       (enumerate 0 stps) of
                  Inl e \<Rightarrow> Inl e
                | Inr converted \<Rightarrow>
                    Inr \<lparr>scenario_id = string_or (raw_id scn) (''scn_'' @ show_nat (index + 1)),
                         name = string_or (raw_name scn)
                                  (''Generated Scenario '' @ show_nat (index + 1)),
                         steps = converted,
                         timeTakenToCompile = None,
                         tags = Some (case raw_tags scn of
                                        Some t \<Rightarrow> t
                                      | None \<Rightarrow> [''generated''])\<rparr>)))"

definition try_generate :: "gemini_world \<Rightarrow> PRDIntake \<Rightarrow> exn + TestScenario list" where
  \<comment> \<open>the \<^verbatim>\<open>try\<close> block of \<^verbatim>\<open>generateGeminiScenarios\<close>\<close>
  "try_generate g input =
     (case generateTestScenarios g (objective input) (intake_url input) (credentials input) of
        Inl e \<Rightarrow> Inl e
      | Inr geminiResponse \<Rightarrow>
          (case parseGeminiResponse g geminiResponse of
             Inl e \<Rightarrow> Inl e
           | Inr parsedResponse \<Rightarrow>
               (case scenarios parsedResponse of
                  None \<Rightarrow> Inl (Error ''Invalid response format from Gemini API'')
                | Some raws \<Rightarrow>
                    map_throwing (\<lambda>(index, scenario). convert_scenario index scenario)
                      (enumerate 0 raws))))"

definition generateGeminiScenarios :: "gemini_world \<Rightarrow> PRDIntake \<Rightarrow> exn + TestScenario list" where
  \<comment> \<open>the \<^verbatim>\<open>catch\<close> returns the empty array\<close>
  "generateGeminiScenarios g input =
     (case try_generate g input of
        Inl e \<Rightarrow> Inr []
      | Inr scns \<Rightarrow> Inr scns)"

section \<open>Notions used to state the properties\<close>

fun separated :: "string list \<Rightarrow> string" where
  \<comment> \<open>blocks of text with an empty line between neighbours\<close>
  "separated [] = []"
| "separated [b] = b"
| "separated (b # c # bs) = b @ ''\<newline>'' @ separated (c # bs)"

fun no_double_space :: "string \<Rightarrow> bool" where
  \<comment> \<open>no two neighbouring characters are both spaces\<close>
  "no_double_space (a # b # cs) =
     (\<not> (a = CHR '' '' \<and> b = CHR '' '') \<and> no_double_space (b # cs))"
| "no_double_space cs = True"

text \<open>
  The title of a generated test, in the words of its description: of the scenario name keep
  the ASCII letters, the digits and the white space, cut what is kept into its runs (the
  longest stretches of white space and of other characters, alternating), and put one space
  for each run of white space.
\<close>

definition ascii_letter_or_digit :: "char \<Rightarrow> bool" where
  "ascii_letter_or_digit c =
     (c \<in> set (''abcdefghijklmnopqrstuvwxyz'' @ ''ABCDEFGHIJKLMNOPQRSTUVWXYZ'' @
               ''0123456789''))"

definition white_space :: "char \<Rightarrow> bool" where
  \<comment> \<open>tab, line feed, vertical tab, form feed, carriage return, space, no-break space\<close>
  "white_space c =
     (c \<in> {CHR 0x09, CHR 0x0A, CHR 0x0B, CHR 0x0C, CHR 0x0D, CHR '' '', CHR 0xA0})"

function runs :: "string \<Rightarrow> string list" where
  "runs [] = []"
| "runs (c # cs) =
     (c # takeWhile (\<lambda>d. white_space d = white_space c) cs) #
     runs (dropWhile (\<lambda>d. white_space d = white_space c) cs)"
  by pat_completeness auto
termination
  by (relation "measure length") (auto simp: length_dropWhile_le less_Suc_eq_le)

fun alternating :: "string list \<Rightarrow> bool" where
  \<comment> \<open>neighbouring runs are of different kinds\<close>
  "alternating (a # b # rs) =
     (white_space (hd a) \<noteq> white_space (hd b) \<and> alternating (b # rs))"
| "alternating rs = True"

definition sanitized_title :: "string \<Rightarrow> string" where
  "sanitized_title n =
     concat (map (\<lambda>r. if white_space (hd r) then '' '' else r)
       (runs (filter (\<lambda>c. ascii_letter_or_digit c \<or> white_space c) n)))"

definition validation_offers_nothing :: "'s client_methods \<Rightarrow> TestStep \<Rightarrow> bool" where
  \<comment> \<open>in every state, validating the step's target reports failure or offers no selector\<close>
  "validation_offers_nothing m step =
     (\<forall>s r s'. call_validateSelector m s (target step) = (Inr r, s') \<longrightarrow>
        \<not> (success r \<and> truthy (improvedSelector r)))"

definition execution_fails :: "'s client_methods \<Rightarrow> TestStep \<Rightarrow> bool" where
  \<comment> \<open>in every state, executing the step's action reports failure, whatever the target\<close>
  "execution_fails m step =
     (\<forall>s t d r s'. call_executeStep m s (action step) t d = (Inr r, s') \<longrightarrow> \<not> success r)"

definition repaired_from :: "'s client_methods \<Rightarrow> TestStep \<Rightarrow> TestStep \<Rightarrow> bool" where
  \<comment> \<open>\<open>out\<close> is \<open>step\<close> with a new target and description at most, the target kept when
      validation offers nothing and the description kept when execution fails\<close>
  "repaired_from m step out =
     ((\<exists>t d. out = step\<lparr>target := t, description := d\<rparr>) \<and>
      (validation_offers_nothing m step \<longrightarrow> target out = target step) \<and>
      (execution_fails m step \<longrightarrow> description out = description step))"

definition same_scenario :: "TestScenario \<Rightarrow> TestScenario \<Rightarrow> bool" where
  \<comment> \<open>the same scenario up to its repaired steps and its timing\<close>
  "same_scenario a b =
     (scenario_id a = scenario_id b \<and> name a = name b \<and> tags a = tags b \<and>
      length (steps a) = length (steps b))"

definition transport_failure :: "fetch_outcome \<Rightarrow> bool" where
  \<comment> \<open>\<^verbatim>\<open>fetch\<close> rejects, or the response is not \<^verbatim>\<open>ok\<close>\<close>
  "transport_failure out =
     (case out of FetchRejects e \<Rightarrow> True | FetchResolves response \<Rightarrow> \<not> ok response)"

section \<open>Concrete runs\<close>

text \<open>
  A backend that counts the calls it has answered and whose clock advances 100 ms per call.
  It knows a stable selector for \<^verbatim>\<open>#login\<close> and answers with it as plain text, answers
  \<^verbatim>\<open>{}\<close> for \<^verbatim>\<open>#user\<close>, and throws for every other selector; its fill tool throws; its
  other tools answer with no content. \<^verbatim>\<open>JSON.parse\<close> is given on the two texts it sends.
\<close>

definition sample_world :: "nat world" where
  "sample_world =
     \<lparr>connectTransport = (\<lambda>s. (None, Suc s)),
      callTool = (\<lambda>s tool args.
        if tool = ''playwright_validate_selector'' then
          (if args = [(''selector'', StrArg ''#login''), (''context'', StrArg ''validation'')]
           then (Inr \<lparr>content = Some [TextContent ''[data-testid=login]'']\<rparr>, Suc s)
           else if args = [(''selector'', StrArg ''#user''), (''context'', StrArg ''validation'')]
           then (Inr \<lparr>content = Some [TextContent ''{}'']\<rparr>, Suc s)
           else (Inl (Error ''no such element''), Suc s))
        else if tool = ''playwright_fill'' then (Inl (Error ''element is not editable''), Suc s)
        else (Inr \<lparr>content = Some []\<rparr>, Suc s)),
      now = (\<lambda>s. 100 * int s),
      JSON_parse = (\<lambda>t. if t = ''{}''
                          then Parsed \<lparr>p_improvedSelector = None, p_executionTime = None\<rparr>
                          else SyntaxError),
      parseInt = (\<lambda>t. if t = ''1000'' then Number 1000 else NaN)\<rparr>"

definition unreachable_world :: "nat world" where
  \<comment> \<open>the same backend when the server cannot be started\<close>
  "unreachable_world =
     sample_world\<lparr>connectTransport := (\<lambda>s. (Some (Error ''spawn npx ENOENT''), Suc s))\<rparr>"

definition fresh_client :: MCPClient where
  "fresh_client = \<lparr>has_client = False, isConnected = False, has_transport = False\<rparr>"

definition connected_client :: MCPClient where
  "connected_client = \<lparr>has_client = True, isConnected = True, has_transport = True\<rparr>"

definition sample_methods :: "nat client_methods" where
  "sample_methods = MCPClient_methods sample_world connected_client"


definition click_login :: TestStep where
  "click_login =
     \<lparr>action = ''click'', target = ''#login'', data = None, description = ''Click on Login''\<rparr>"

definition fill_email :: TestStep where
  "fill_email =
     \<lparr>action = ''fill'', target = ''#email'', data = Some ''bob@x.test'',
      description = ''Enter email''\<rparr>"

definition hover_menu :: TestStep where
  "hover_menu =
     \<lparr>action = ''hover'', target = ''#menu'', data = None, description = ''Hover over the menu''\<rparr>"

definition sample_scenario :: "TestStep list \<Rightarrow> TestScenario" where
  "sample_scenario stps =
     \<lparr>scenario_id = ''scn_1'', name = ''Bob's  login'', steps = stps,
      timeTakenToCompile = None, tags = Some [''smoke'']\<rparr>"

definition sample_options :: "selector_strategy \<Rightarrow> CompileOptions" where
  "sample_options strategy =
     \<lparr>emitPageObjects = True, selectorStrategy = strategy,
      fileName = ''generated_test.spec.ts'', suiteId = ''suite_generated'', runId = None\<rparr>"

text \<open>
  A text service that is unreachable for the objective \<^verbatim>\<open>offline\<close>, answers 429 for
  \<^verbatim>\<open>quota\<close>, answers with a fenced scenario whose step has the action \<^verbatim>\<open>drag\<close> for
  \<^verbatim>\<open>drag\<close>, with a sentence and no object for \<^verbatim>\<open>prose\<close>, with a scenario whose one step
  is \<^verbatim>\<open>null\<close> for \<^verbatim>\<open>null step\<close>, and otherwise with an unfenced scenario of two steps, the
  second without an action. \<^verbatim>\<open>JSON.parse\<close> is given on the three objects it sends.
\<close>

definition dq :: "string \<Rightarrow> string" where
  \<comment> \<open>a string in double quotes\<close>
  "dq t = CHR 0x22 # t @ [CHR 0x22]"

definition drag_json :: string where
  "drag_json =
     ''{'' @ dq ''scenarios'' @ '':[{'' @ dq ''steps'' @ '':[{'' @ dq ''action'' @ '':'' @
     dq ''drag'' @ '','' @ dq ''target'' @ '':'' @ dq ''#card'' @ ''}]}]}''"

definition drag_reply :: string where
  "drag_reply =
     ''Here are the scenarios:\<newline>'' @ fence @ ''json\<newline>'' @ drag_json @ ''\<newline>'' @ fence"

definition login_json :: string where
  "login_json =
     ''{'' @ dq ''scenarios'' @ '':[{'' @ dq ''name'' @ '':'' @ dq ''Login'' @ '','' @
     dq ''steps'' @ '':[{'' @ dq ''action'' @ '':'' @ dq ''goto'' @ '','' @ dq ''target'' @ '':'' @
     dq ''https://x.test'' @ ''},{'' @ dq ''target'' @ '':'' @ dq ''#login'' @ ''}]}]}''"

definition drag_raws :: "raw_scenario option list" where
  "drag_raws =
     [Some \<lparr>raw_id = None, raw_name = None,
            raw_steps = Some [Some \<lparr>raw_action = Some ''drag'', raw_target = Some ''#card'',
                                    raw_data = None, raw_description = None\<rparr>],
            raw_tags = None\<rparr>]"

definition login_raws :: "raw_scenario option list" where
  "login_raws =
     [Some \<lparr>raw_id = None, raw_name = Some ''Login'',
            raw_steps = Some [Some \<lparr>raw_action = Some ''goto'',
                                    raw_target = Some ''https://x.test'',
                                    raw_data = None, raw_description = None\<rparr>,
                              Some \<lparr>raw_action = None, raw_target = Some ''#login'',
                                    raw_data = None, raw_description = None\<rparr>],
            raw_tags = None\<rparr>]"

definition null_step_json :: string where
  "null_step_json =
     ''{'' @ dq ''scenarios'' @ '':[{'' @ dq ''name'' @ '':'' @ dq ''Login'' @ '','' @
     dq ''steps'' @ '':[null]}]}''"

definition null_step_raws :: "raw_scenario option list" where
  "null_step_raws =
     [Some \<lparr>raw_id = None, raw_name = Some ''Login'', raw_steps = Some [None],
            raw_tags = None\<rparr>]"

definition sample_gemini :: gemini_world where
  "sample_gemini =
     \<lparr>fetch = (\<lambda>obj url creds.
        if obj = ''offline'' then FetchRejects (Error ''getaddrinfo ENOTFOUND'')
        else if obj = ''quota'' then
          FetchResolves \<lparr>ok = False, status = 429, text_body = Inr ''quota exceeded'',
                         json_body = Inl (Error ''Unexpected token q'')\<rparr>
        else
          FetchResolves \<lparr>ok = True, status = 200, text_body = Inr [],
                         json_body = Inr \<lparr>candidates = Some
                           [\<lparr>parts = [if obj = ''drag'' then drag_reply
                                       else if obj = ''prose'' then ''Sorry, no scenarios today.''
                                       else if obj = ''null step'' then null_step_json
                                       else login_json]\<rparr>]\<rparr>\<rparr>),
      JSON_parse_reply = (\<lambda>t.
        if t = drag_json then Inr \<lparr>scenarios = Some drag_raws\<rparr>
        else if t = login_json then Inr \<lparr>scenarios = Some login_raws\<rparr>
        else if t = null_step_json then Inr \<lparr>scenarios = Some null_step_raws\<rparr>
        else Inl (Error ''Unexpected token''))\<rparr>"

definition sample_intake :: "string \<Rightarrow> PRDIntake" where
  "sample_intake obj =
     \<lparr>objective = obj, intake_url = ''https://x.test'', credentials = None, intake_runId = None\<rparr>"

section \<open>Properties of the code generator\<close>

lemma separated_Cons: "bs \<noteq> [] \<Longrightarrow> separated (b # bs) = b @ ''\<newline>'' @ separated bs"
  by (cases bs) simp_all

lemma forEach_steps_separated:
  "i + length ss = len \<Longrightarrow>
   forEach_steps body len i ss acc = acc @ separated (map body ss)"
proof (induction ss arbitrary: i acc)
  case Nil
  then show ?case by simp
next
  case (Cons a ss)
  show ?case
  proof (cases "ss = []")
    case True
    with Cons.prems show ?thesis by simp
  next
    case False
    with Cons.prems have lt: "int i < int len - 1" by (cases ss) auto
    from Cons.prems have "(i + 1) + length ss = len" by simp
    then have ih: "forEach_steps body len (i + 1) ss (acc @ body a @ ''\<newline>'') =
        (acc @ body a @ ''\<newline>'') @ separated (map body ss)"
      by (rule Cons.IH)
    have "forEach_steps body len i (a # ss) acc =
        forEach_steps body len (i + 1) ss (acc @ body a @ ''\<newline>'')"
      using lt by (simp add: Let_def)
    also note ih
    also have "(acc @ body a @ ''\<newline>'') @ separated (map body ss) =
        acc @ separated (map body (a # ss))"
      using False by (simp add: separated_Cons)
    finally show ?thesis .
  qed
qed

lemma generatePlaywrightTest_blocks:
  "generatePlaywrightTest scn opts =
     file_header (name scn) @ separated (map (step_code opts) (steps scn)) @ file_footer"
  by (simp add: generatePlaywrightTest_def forEach_steps_separated)

lemma generatePlaywrightTest_combined_blocks:
  "generatePlaywrightTest_combined scn opts =
     file_header (name scn) @ separated (map (step_code_combined opts) (steps scn)) @ file_footer"
  by (simp add: generatePlaywrightTest_combined_def forEach_steps_separated)

lemma separated_split:
  "\<exists>pre post. separated (xs @ b # ys) = pre @ b @ post"
proof (induction xs)
  case Nil
  show ?case
  proof (cases ys)
    case Nil
    have "separated ([] @ b # ys) = [] @ b @ []" using Nil by simp
    then show ?thesis by blast
  next
    case (Cons y ys')
    have "separated ([] @ b # ys) = [] @ b @ (''\<newline>'' @ separated ys)" using Cons by simp
    then show ?thesis by blast
  qed
next
  case (Cons a xs)
  then obtain pre post where e: "separated (xs @ b # ys) = pre @ b @ post" by blast
  have "xs @ b # ys \<noteq> []" by simp
  then obtain c cs where c: "xs @ b # ys = c # cs" by (cases "xs @ b # ys") auto
  have "separated ((a # xs) @ b # ys) = a @ ''\<newline>'' @ separated (xs @ b # ys)"
    using c by simp
  with e have "separated ((a # xs) @ b # ys) = (a @ ''\<newline>'' @ pre) @ b @ post" by simp
  then show ?case by blast
qed

lemma collapse_spaces_chars:
  "c \<in> set (collapse_spaces xs) \<Longrightarrow> c = CHR '' '' \<or> (c \<in> set xs \<and> \<not> is_space c)"
proof (induction xs rule: collapse_spaces.induct)
  case 1
  then show ?case by simp
next
  case (2 d ds)
  show ?case
  proof (cases "is_space d")
    case True
    with 2 show ?thesis by (auto dest: set_dropWhileD)
  next
    case False
    with 2 show ?thesis by auto
  qed
qed

lemma testName_chars: "c \<in> set (testName n) \<Longrightarrow> c = CHR '' '' \<or> is_alnum c"
  unfolding testName_def by (auto dest!: collapse_spaces_chars)

lemma quote_not_alnum: "\<not> is_alnum (CHR 0x27)"
  by (simp add: is_alnum_def)

lemma testName_no_quote: "CHR 0x27 \<notin> set (testName n)"
  using testName_chars[of "CHR 0x27" n] quote_not_alnum by auto

lemma space_is_space: "is_space (CHR '' '')"
  by (simp add: is_space_def)

lemma collapse_spaces_head:
  "collapse_spaces xs = a # r \<Longrightarrow> \<not> is_space (hd xs) \<Longrightarrow> a = hd xs"
  by (cases xs) (auto split: if_splits)

lemma no_double_space_collapse: "no_double_space (collapse_spaces xs)"
proof (induction xs rule: collapse_spaces.induct)
  case 1
  show ?case by simp
next
  case (2 c cs)
  show ?case
  proof (cases "is_space c")
    case True
    let ?rest = "dropWhile is_space cs"
    from True 2 have ih: "no_double_space (collapse_spaces ?rest)" by simp
    show ?thesis
    proof (cases "collapse_spaces ?rest")
      case Nil
      with True show ?thesis by simp
    next
      case (Cons a r)
      from Cons have "collapse_spaces ?rest \<noteq> []" by simp
      then have "?rest \<noteq> []" by (metis collapse_spaces.simps(1))
      then have "\<not> is_space (hd ?rest)" by (rule hd_dropWhile)
      with Cons have "a = hd ?rest" by (rule collapse_spaces_head)
      with \<open>\<not> is_space (hd ?rest)\<close> have "a \<noteq> CHR '' ''" using space_is_space by auto
      with ih Cons True show ?thesis by simp
    qed
  next
    case False
    then have ne: "c \<noteq> CHR '' ''" using space_is_space by auto
    from False 2 have ih: "no_double_space (collapse_spaces cs)" by simp
    show ?thesis
    proof (cases "collapse_spaces cs")
      case Nil
      with False show ?thesis by simp
    next
      case (Cons a r)
      with ih ne False show ?thesis by simp
    qed
  qed
qed

lemma alnum_not_space: "is_alnum c \<Longrightarrow> \<not> is_space c"
  by (auto simp: is_alnum_def is_space_def Let_def)

lemma filter_dropWhile_disjoint:
  "(\<And>x. Q x \<Longrightarrow> \<not> P x) \<Longrightarrow> filter Q (dropWhile P xs) = filter Q xs"
  by (induction xs) auto

lemma filter_alnum_collapse: "filter is_alnum (collapse_spaces xs) = filter is_alnum xs"
proof (induction xs rule: collapse_spaces.induct)
  case 1
  show ?case by simp
next
  case (2 c cs)
  show ?case
  proof (cases "is_space c")
    case True
    then have "\<not> is_alnum c" using alnum_not_space by blast
    moreover have "\<not> is_alnum (CHR '' '')" by (simp add: is_alnum_def)
    moreover have "filter is_alnum (dropWhile is_space cs) = filter is_alnum cs"
      by (rule filter_dropWhile_disjoint) (rule alnum_not_space)
    ultimately show ?thesis using True 2 by simp
  next
    case False
    with 2 show ?thesis by simp
  qed
qed

lemma filter_alnum_testName: "filter is_alnum (testName n) = filter is_alnum n"
  by (simp add: testName_def filter_alnum_collapse) (metis (mono_tags, lifting) filter_cong)

lemma step_code_strategy:
  "selectorStrategy o1 = selectorStrategy o2 \<Longrightarrow> step_code o1 = step_code o2"
  by (rule ext) (simp add: step_code_def)

lemma step_code_combined_strategy:
  "selectorStrategy o1 = selectorStrategy o2 \<Longrightarrow> step_code_combined o1 = step_code_combined o2"
  by (rule ext) (simp add: step_code_combined_def)

lemma step_code_default:
  assumes "action step \<notin> {''goto'', ''click'', ''fill'', ''type'', ''expect'', ''wait''}"
  shows "step_code opts step =
     ''  // '' @ action step @ '': '' @ description step @ ''\<newline>'' @
     ''  await page.locator('' @ quoted (target step) @ '').'' @ action step @ ''();\<newline>''"
  using assms by (simp add: step_code_def locator_def)

lemma step_code_combined_default:
  assumes "action step \<notin> {''goto'', ''fill'', ''click'', ''expect''}"
  shows "step_code_combined opts step =
     ''  // Unknown action: '' @ action step @ ''\<newline>'' @
     ''  // '' @ description step @ ''\<newline>''"
  using assms by (simp add: step_code_combined_def)

lemma separated_map_member:
  assumes "x \<in> set xs"
  shows "\<exists>pre post. separated (map f xs) = pre @ f x @ post"
proof -
  from assms obtain ys zs where "xs = ys @ x # zs" by (meson split_list)
  then have "map f xs = map f ys @ f x # map f zs" by simp
  then show ?thesis using separated_split[of "map f ys" "f x" "map f zs"] by simp
qed

lemma generated_contains_block:
  assumes "step \<in> set (steps scn)"
  shows "\<exists>pre post. generatePlaywrightTest scn opts = pre @ step_code opts step @ post"
proof -
  obtain pre post where "separated (map (step_code opts) (steps scn)) =
      pre @ step_code opts step @ post"
    using separated_map_member[OF assms, of "step_code opts"] by blast
  then have "generatePlaywrightTest scn opts =
      (file_header (name scn) @ pre) @ step_code opts step @ (post @ file_footer)"
    by (simp add: generatePlaywrightTest_blocks)
  then show ?thesis by blast
qed

lemma generated_combined_contains_block:
  assumes "step \<in> set (steps scn)"
  shows "\<exists>pre post. generatePlaywrightTest_combined scn opts =
     pre @ step_code_combined opts step @ post"
proof -
  obtain pre post where "separated (map (step_code_combined opts) (steps scn)) =
      pre @ step_code_combined opts step @ post"
    using separated_map_member[OF assms, of "step_code_combined opts"] by blast
  then have "generatePlaywrightTest_combined scn opts =
      (file_header (name scn) @ pre) @ step_code_combined opts step @ (post @ file_footer)"
    by (simp add: generatePlaywrightTest_combined_blocks)
  then show ?thesis by blast
qed

lemma testName_sample: "testName ''Bob's  login'' = ''Bobs login''"
  by (simp add: testName_def is_alnum_def is_space_def)

lemma steps_allowed_member:
  "steps_allowed stps \<Longrightarrow> step \<in> set stps \<Longrightarrow> action step \<in> set ALLOWED_ACTIONS"
  by (induction stps) (auto split: if_splits)

lemma validateScenarioActions_member:
  "validateScenarioActions scns \<and> scn \<in> set scns \<and> step \<in> set (steps scn) \<Longrightarrow>
   steps_allowed (steps scn)"
  by (induction scns) (auto split: if_splits)

subsection \<open>The code generator's claims\<close>

text \<open>
  C6. For a step whose action is none of the kinds the generator handles (goto, click, fill,
  type, expect, wait), the generated file holds a comment carrying the action name and the
  step's description, followed by a call of the action's name on the step's locator; the
  generator is a total function of a scenario of the IR, so no such step makes it throw.
  The combined API server's copy of the generator handles goto, fill, click and expect, and
  no other action reaches it: a scenario that has passed \<^verbatim>\<open>validateScenarioActions\<close>, as
  every scenario that copy is called on has, holds only steps with one of these four
  actions.
\<close>

theorem unhandled_action_block:
  "(action step \<notin> {''goto'', ''click'', ''fill'', ''type'', ''expect'', ''wait''} \<and>
    step \<in> set (steps scn) \<longrightarrow>
      (\<exists>pre post. generatePlaywrightTest scn opts =
         pre @
         ''  // '' @ action step @ '': '' @ description step @ ''\<newline>'' @
         ''  await page.locator('' @ [CHR 0x27] @ target step @ [CHR 0x27] @ '').'' @
           action step @ ''();\<newline>'' @
         post)) \<and>
   (validateScenarioActions scns \<and> scn \<in> set scns \<and> step \<in> set (steps scn) \<longrightarrow>
      action step \<in> {''goto'', ''fill'', ''click'', ''expect''})"
proof (intro conjI impI)
  assume h: "action step \<notin> {''goto'', ''click'', ''fill'', ''type'', ''expect'', ''wait''} \<and>
    step \<in> set (steps scn)"
  then obtain pre post where
    g: "generatePlaywrightTest scn opts = pre @ step_code opts step @ post"
    using generated_contains_block by blast
  from h have "step_code opts step =
     ''  // '' @ action step @ '': '' @ description step @ ''\<newline>'' @
     ''  await page.locator('' @ quoted (target step) @ '').'' @ action step @ ''();\<newline>''"
    by (intro step_code_default) simp
  then have sc: "step_code opts step =
     ''  // '' @ action step @ '': '' @ description step @ ''\<newline>'' @
     ''  await page.locator('' @ [CHR 0x27] @ target step @ [CHR 0x27] @ '').'' @
       action step @ ''();\<newline>''"
    by (simp add: quoted_def)
  have "generatePlaywrightTest scn opts =
         pre @
         ''  // '' @ action step @ '': '' @ description step @ ''\<newline>'' @
         ''  await page.locator('' @ [CHR 0x27] @ target step @ [CHR 0x27] @ '').'' @
           action step @ ''();\<newline>'' @
         post"
    unfolding g sc by (simp only: append_assoc)
  then show "\<exists>pre post. generatePlaywrightTest scn opts =
         pre @
         ''  // '' @ action step @ '': '' @ description step @ ''\<newline>'' @
         ''  await page.locator('' @ [CHR 0x27] @ target step @ [CHR 0x27] @ '').'' @
           action step @ ''();\<newline>'' @
         post"
    by blast
next
  assume h: "validateScenarioActions scns \<and> scn \<in> set scns \<and> step \<in> set (steps scn)"
  then have "steps_allowed (steps scn)" by (rule validateScenarioActions_member)
  with h have "action step \<in> set ALLOWED_ACTIONS" by (simp add: steps_allowed_member)
  then show "action step \<in> {''goto'', ''fill'', ''click'', ''expect''}"
    by (auto simp: ALLOWED_ACTIONS_def)
qed

theorem unhandled_action_block_witness:
  "action hover_menu \<notin> {''goto'', ''click'', ''fill'', ''type'', ''expect'', ''wait''} \<and>
   hover_menu \<in> set (steps (sample_scenario [click_login, hover_menu])) \<and>
   (\<exists>pre post. generatePlaywrightTest (sample_scenario [click_login, hover_menu])
        (sample_options Css) =
      pre @ ''  // hover: Hover over the menu\<newline>  await page.locator('#menu').hover();\<newline>'' @
      post) \<and>
   validateScenarioActions [sample_scenario [click_login]] \<and>
   \<not> validateScenarioActions [sample_scenario [click_login, hover_menu]] \<and>
   action click_login \<in> {''goto'', ''fill'', ''click'', ''expect''}"
proof -
  have a: "action hover_menu \<notin> {''goto'', ''click'', ''fill'', ''type'', ''expect'', ''wait''}"
    by (simp add: hover_menu_def)
  have b: "hover_menu \<in> set (steps (sample_scenario [click_login, hover_menu]))"
    by (simp add: sample_scenario_def)
  from unhandled_action_block[of hover_menu "sample_scenario [click_login, hover_menu]"
      "sample_options Css"] a b
  have c: "\<exists>pre post. generatePlaywrightTest (sample_scenario [click_login, hover_menu])
        (sample_options Css) =
      pre @ ''  // hover: Hover over the menu\<newline>  await page.locator('#menu').hover();\<newline>'' @
      post"
    by (simp add: hover_menu_def)
  have d: "validateScenarioActions [sample_scenario [click_login]]"
    by (simp add: sample_scenario_def click_login_def ALLOWED_ACTIONS_def)
  have e: "\<not> validateScenarioActions [sample_scenario [click_login, hover_menu]]"
    by (simp add: sample_scenario_def click_login_def hover_menu_def ALLOWED_ACTIONS_def)
  from unhandled_action_block[where scns = "[sample_scenario [click_login]]"
      and scn = "sample_scenario [click_login]" and step = click_login] d
  have f: "action click_login \<in> {''goto'', ''fill'', ''click'', ''expect''}"
    by (simp add: sample_scenario_def)
  from a b c d e f show ?thesis by blast
qed

text \<open>
  C7. The generated text is a function of the scenario's name and steps and of the selector
  strategy alone: two calls that agree on these return the same text, whatever the other
  fields of the scenario and of the options are. In particular two calls with identical
  arguments return identical text.
\<close>

theorem generator_deterministic:
  "name s1 = name s2 \<and> steps s1 = steps s2 \<and> selectorStrategy o1 = selectorStrategy o2 \<longrightarrow>
     generatePlaywrightTest s1 o1 = generatePlaywrightTest s2 o2 \<and>
     generatePlaywrightTest_combined s1 o1 = generatePlaywrightTest_combined s2 o2"
  by (auto simp: generatePlaywrightTest_def generatePlaywrightTest_combined_def
      dest: step_code_strategy step_code_combined_strategy)

theorem generator_deterministic_witness:
  "name (sample_scenario [click_login]) = name ((sample_scenario [click_login])\<lparr>scenario_id := ''other''\<rparr>) \<and>
   steps (sample_scenario [click_login]) = steps ((sample_scenario [click_login])\<lparr>scenario_id := ''other''\<rparr>) \<and>
   selectorStrategy (sample_options Css) =
     selectorStrategy ((sample_options Css)\<lparr>fileName := ''login.spec.ts''\<rparr>) \<and>
   generatePlaywrightTest (sample_scenario [click_login]) (sample_options Css) =
     generatePlaywrightTest ((sample_scenario [click_login])\<lparr>scenario_id := ''other''\<rparr>)
       ((sample_options Css)\<lparr>fileName := ''login.spec.ts''\<rparr>) \<and>
   generatePlaywrightTest_combined (sample_scenario [click_login]) (sample_options Css) =
     generatePlaywrightTest_combined ((sample_scenario [click_login])\<lparr>scenario_id := ''other''\<rparr>)
       ((sample_options Css)\<lparr>fileName := ''login.spec.ts''\<rparr>)"
  using generator_deterministic[of "sample_scenario [click_login]"
      "(sample_scenario [click_login])\<lparr>scenario_id := ''other''\<rparr>" "sample_options Css"
      "(sample_options Css)\<lparr>fileName := ''login.spec.ts''\<rparr>"]
  by (simp add: sample_scenario_def sample_options_def)

text \<open>
  C8. The four-step scenario of the specification, compiled with the css strategy, gives
  the file header, then a navigation to https://x.test, a click on the raw selector #login,
  a fill of #user with bob and a visibility assertion on #welcome, in this order and
  separated by empty lines, then the closing line. This holds for every name, every
  description and every other field of the scenario and the options.
\<close>

theorem four_step_scenario_css:
  "generatePlaywrightTest
     \<lparr>scenario_id = i, name = nm,
      steps = [\<lparr>action = ''goto'', target = ''https://x.test'', data = None, description = d1\<rparr>,
               \<lparr>action = ''click'', target = ''#login'', data = None, description = d2\<rparr>,
               \<lparr>action = ''fill'', target = ''#user'', data = Some ''bob'', description = d3\<rparr>,
               \<lparr>action = ''expect'', target = ''#welcome'', data = Some ''visible'',
                description = d4\<rparr>],
      timeTakenToCompile = t, tags = g\<rparr>
     \<lparr>emitPageObjects = e, selectorStrategy = Css, fileName = f, suiteId = su, runId = r\<rparr> =
   file_header nm @
   ''  // Navigate to the page\<newline>  await page.goto('https://x.test');\<newline>\<newline>'' @
   ''  // Click on element\<newline>  await page.locator('#login').click();\<newline>\<newline>'' @
   ''  // Fill input field\<newline>  await page.locator('#user').fill('bob');\<newline>\<newline>'' @
   ''  // Verify element\<newline>  await expect(page.locator('#welcome')).toBeVisible();\<newline>'' @
   ''});\<newline>''"
  by (simp add: generatePlaywrightTest_def step_code_def expect_code_def locator_def quoted_def
      startsWith_def truthy_def or_empty_def file_footer_def Let_def)

lemma is_alnum_chars: "\<forall>c. is_alnum c = ascii_letter_or_digit c"
  by code_simp

lemma is_space_chars: "\<forall>c. is_space c = white_space c"
  by code_simp

lemma is_alnum_eq: "is_alnum = ascii_letter_or_digit"
  using is_alnum_chars by (intro ext) simp

lemma is_space_eq: "is_space = white_space"
  using is_space_chars by (intro ext) simp

lemma concat_runs: "concat (runs s) = s"
  by (induction s rule: runs.induct) simp_all

lemma runs_uniform:
  "r \<in> set (runs s) \<Longrightarrow> r \<noteq> [] \<and> (\<forall>d\<in>set r. white_space d = white_space (hd r))"
proof (induction s rule: runs.induct)
  case 1
  then show ?case by simp
next
  case (2 c cs)
  let ?P = "\<lambda>d. white_space d = white_space c"
  from "2.prems" have "r = c # takeWhile ?P cs \<or> r \<in> set (runs (dropWhile ?P cs))"
    by simp
  then show ?case
  proof
    assume r: "r = c # takeWhile ?P cs"
    have "white_space d = white_space (hd r)" if d: "d \<in> set r" for d
    proof (cases "d = c")
      case True
      with r show ?thesis by simp
    next
      case False
      with d r have "d \<in> set (takeWhile ?P cs)" by simp
      from set_takeWhileD[OF this] have "white_space d = white_space c" by (rule conjunct2)
      with r show ?thesis by simp
    qed
    moreover from r have "r \<noteq> []" by simp
    ultimately show ?thesis by blast
  next
    assume "r \<in> set (runs (dropWhile ?P cs))"
    then show ?thesis by (rule "2.IH")
  qed
qed

lemma runs_hd: "runs s = a # rs \<Longrightarrow> a \<noteq> [] \<and> hd a = hd s"
proof (cases s)
  case Nil
  assume "runs s = a # rs"
  with Nil show ?thesis by simp
next
  case (Cons c cs)
  assume "runs s = a # rs"
  with Cons have "a = c # takeWhile (\<lambda>d. white_space d = white_space c) cs"
    by (simp only: runs.simps list.inject)
  with Cons show ?thesis by simp
qed

lemma runs_alternating: "alternating (runs s)"
proof (induction s rule: runs.induct)
  case 1
  show ?case by simp
next
  case (2 c cs)
  let ?rest = "dropWhile (\<lambda>d. white_space d = white_space c) cs"
  show ?case
  proof (cases "runs ?rest")
    case Nil
    then show ?thesis by simp
  next
    case (Cons b rs)
    have ne: "?rest \<noteq> []"
    proof
      assume "?rest = []"
      then have "runs ?rest = []" by (simp only: runs.simps)
      with Cons show False by simp
    qed
    from hd_dropWhile[OF ne] have "white_space (hd ?rest) \<noteq> white_space c" .
    moreover from runs_hd[OF Cons] have "hd b = hd ?rest" by simp
    ultimately show ?thesis using 2 Cons by simp
  qed
qed

lemma collapse_spaces_word:
  "collapse_spaces cs =
     takeWhile (\<lambda>d. \<not> white_space d) cs @ collapse_spaces (dropWhile (\<lambda>d. \<not> white_space d) cs)"
  by (induction cs) (simp_all add: is_space_eq)

lemma collapse_spaces_runs:
  "collapse_spaces s = concat (map (\<lambda>r. if white_space (hd r) then '' '' else r) (runs s))"
proof (induction s rule: runs.induct)
  case 1
  show ?case by simp
next
  case (2 c cs)
  show ?case
  proof (cases "white_space c")
    case True
    then have "(\<lambda>d. white_space d = white_space c) = white_space" by auto
    with True 2 show ?thesis by (simp add: is_space_eq)
  next
    case False
    then have e: "(\<lambda>d. white_space d = white_space c) = (\<lambda>d. \<not> white_space d)" by auto
    have "collapse_spaces (c # cs) = c # collapse_spaces cs"
      using False by (simp add: is_space_eq)
    also have "\<dots> = c # takeWhile (\<lambda>d. \<not> white_space d) cs @
        collapse_spaces (dropWhile (\<lambda>d. \<not> white_space d) cs)"
      using collapse_spaces_word[of cs] by simp
    finally show ?thesis using False 2 e by simp
  qed
qed

lemma testName_sanitized: "testName n = sanitized_title n"
  by (simp add: testName_def sanitized_title_def collapse_spaces_runs is_alnum_eq is_space_eq)

lemma sanitized_title_sample: "sanitized_title ''Bob's  login'' = ''Bobs login''"
  by code_simp

text \<open>
  C10. For every scenario, with or without steps, and in both generators, the text starts
  with the line that imports test and expect from @playwright/test, an empty line and the
  test header, and ends with the closing line. The title in the header, between two single
  quotes, is the scenario name without the characters that are neither ASCII letters,
  digits nor white space, with one space for each run of white space that is left. It
  consists of letters, digits and single spaces, keeps the name's letters and digits in
  their order, and holds no quote character, so the title cannot end the string literal
  it is written in.
\<close>

theorem generated_file_frame:
  "(\<exists>body. generatePlaywrightTest scn opts =
      ''import { test, expect } from '@playwright/test';\<newline>\<newline>'' @
      ''test('' @ [CHR 0x27] @ sanitized_title (name scn) @ [CHR 0x27] @
      '', async ({ page }) => {\<newline>'' @
      body @ ''});\<newline>'') \<and>
   (\<exists>body. generatePlaywrightTest_combined scn opts =
      ''import { test, expect } from '@playwright/test';\<newline>\<newline>'' @
      ''test('' @ [CHR 0x27] @ sanitized_title (name scn) @ [CHR 0x27] @
      '', async ({ page }) => {\<newline>'' @
      body @ ''});\<newline>'') \<and>
   generatePlaywrightTest (scn\<lparr>steps := []\<rparr>) opts =
      ''import { test, expect } from '@playwright/test';\<newline>\<newline>'' @
      ''test('' @ [CHR 0x27] @ sanitized_title (name scn) @ [CHR 0x27] @
      '', async ({ page }) => {\<newline>'' @
      ''});\<newline>'' \<and>
   generatePlaywrightTest_combined (scn\<lparr>steps := []\<rparr>) opts =
      ''import { test, expect } from '@playwright/test';\<newline>\<newline>'' @
      ''test('' @ [CHR 0x27] @ sanitized_title (name scn) @ [CHR 0x27] @
      '', async ({ page }) => {\<newline>'' @
      ''});\<newline>'' \<and>
   list_all (\<lambda>c. ascii_letter_or_digit c \<or> c = CHR '' '') (sanitized_title (name scn)) \<and>
   no_double_space (sanitized_title (name scn)) \<and>
   filter ascii_letter_or_digit (sanitized_title (name scn)) =
     filter ascii_letter_or_digit (name scn) \<and>
   CHR 0x27 \<notin> set (sanitized_title (name scn)) \<and>
   CHR 0x22 \<notin> set (sanitized_title (name scn)) \<and>
   sanitized_title ''Bob's  login'' = ''Bobs login''"
proof (intro conjI)
  have header: "file_header (name scn) =
      ''import { test, expect } from '@playwright/test';\<newline>\<newline>'' @
      ''test('' @ [CHR 0x27] @ sanitized_title (name scn) @ [CHR 0x27] @
      '', async ({ page }) => {\<newline>''"
    by (simp add: file_header_def quoted_def testName_sanitized)
  show "\<exists>body. generatePlaywrightTest scn opts =
      ''import { test, expect } from '@playwright/test';\<newline>\<newline>'' @
      ''test('' @ [CHR 0x27] @ sanitized_title (name scn) @ [CHR 0x27] @
      '', async ({ page }) => {\<newline>'' @
      body @ ''});\<newline>''"
    by (simp add: generatePlaywrightTest_blocks header file_footer_def)
  show "\<exists>body. generatePlaywrightTest_combined scn opts =
      ''import { test, expect } from '@playwright/test';\<newline>\<newline>'' @
      ''test('' @ [CHR 0x27] @ sanitized_title (name scn) @ [CHR 0x27] @
      '', async ({ page }) => {\<newline>'' @
      body @ ''});\<newline>''"
    by (simp add: generatePlaywrightTest_combined_blocks header file_footer_def)
  show "generatePlaywrightTest (scn\<lparr>steps := []\<rparr>) opts =
      ''import { test, expect } from '@playwright/test';\<newline>\<newline>'' @
      ''test('' @ [CHR 0x27] @ sanitized_title (name scn) @ [CHR 0x27] @
      '', async ({ page }) => {\<newline>'' @
      ''});\<newline>''"
    by (simp add: generatePlaywrightTest_def header file_footer_def)
  show "generatePlaywrightTest_combined (scn\<lparr>steps := []\<rparr>) opts =
      ''import { test, expect } from '@playwright/test';\<newline>\<newline>'' @
      ''test('' @ [CHR 0x27] @ sanitized_title (name scn) @ [CHR 0x27] @
      '', async ({ page }) => {\<newline>'' @
      ''});\<newline>''"
    by (simp add: generatePlaywrightTest_combined_def header file_footer_def)
  have "list_all (\<lambda>c. is_alnum c \<or> c = CHR '' '') (testName (name scn))"
    using testName_chars by (auto simp: list_all_iff)
  then show "list_all (\<lambda>c. ascii_letter_or_digit c \<or> c = CHR '' '')
      (sanitized_title (name scn))"
    by (simp only: is_alnum_eq testName_sanitized)
  have "no_double_space (testName (name scn))"
    by (simp add: testName_def no_double_space_collapse)
  then show "no_double_space (sanitized_title (name scn))"
    by (simp only: testName_sanitized)
  have "filter is_alnum (testName (name scn)) = filter is_alnum (name scn)"
    by (rule filter_alnum_testName)
  then show "filter ascii_letter_or_digit (sanitized_title (name scn)) =
      filter ascii_letter_or_digit (name scn)"
    by (simp only: is_alnum_eq testName_sanitized)
  have title: "sanitized_title (name scn) = testName (name scn)"
    by (simp only: testName_sanitized)
  show "CHR 0x27 \<notin> set (sanitized_title (name scn))"
    unfolding title by (rule testName_no_quote)
  have "CHR 0x22 \<notin> set (testName (name scn))"
    using testName_chars[of "CHR 0x22" "name scn"] by (auto simp: is_alnum_def)
  then show "CHR 0x22 \<notin> set (sanitized_title (name scn))"
    unfolding title .
  show "sanitized_title ''Bob's  login'' = ''Bobs login''"
    by (rule sanitized_title_sample)
qed

section \<open>Properties of the orchestrator\<close>

lemma execution_failsD:
  "execution_fails m step \<Longrightarrow> call_executeStep m s (action step) t d = (Inr r, s') \<Longrightarrow>
   \<not> success r"
  unfolding execution_fails_def by blast

lemma goto_first_kept:
  assumes "execution_fails m step" "goto_first m step url b s = (Inr d, s')"
  shows "d = description step"
proof (cases "b \<and> action step = ''goto''")
  case True
  obtain r s1 where c: "call_executeStep m s (action step) url None = (r, s1)"
    by (cases "call_executeStep m s (action step) url None")
  show ?thesis
  proof (cases r)
    case (Inl e)
    with c True assms(2) show ?thesis by (simp add: goto_first_def)
  next
    case (Inr res)
    with c have "\<not> success res" using execution_failsD[OF assms(1)] by blast
    with Inr c True assms(2) show ?thesis by (simp add: goto_first_def)
  qed
next
  case False
  with assms(2) show ?thesis by (auto simp: goto_first_def)
qed

lemma validated_target_kept:
  "validation_offers_nothing m step \<Longrightarrow> validated_target m step s = (Inr t, s') \<Longrightarrow>
   t = target step"
  unfolding validated_target_def validation_offers_nothing_def
  by (auto split: if_splits prod.splits sum.splits)

lemma try_block_target_kept:
  assumes "validation_offers_nothing m step" "try_block m step url b s = (Inr (t, d), s')"
  shows "t = target step"
  using assms(2) validated_target_kept[OF assms(1)]
  unfolding try_block_def
  by (auto split: if_splits prod.splits sum.splits)

lemma try_block_description_kept:
  assumes "execution_fails m step" "try_block m step url b s = (Inr (t, d), s')"
  shows "d = description step"
proof -
  note gf = goto_first_kept[OF assms(1)]
  have c_click: ?thesis if a: "action step = ''click''"
  proof -
    note ex = execution_failsD[OF assms(1), unfolded a]
    show ?thesis
      using assms(2) unfolding try_block_def
      by (auto simp: a split: if_splits prod.splits sum.splits dest: ex gf)
  qed
  have c_fill: ?thesis if a: "action step = ''fill''"
  proof -
    note ex = execution_failsD[OF assms(1), unfolded a]
    show ?thesis
      using assms(2) unfolding try_block_def
      by (auto simp: a split: if_splits prod.splits sum.splits dest: ex gf)
  qed
  have c_expect: ?thesis if a: "action step = ''expect''"
  proof -
    note ex = execution_failsD[OF assms(1), unfolded a]
    show ?thesis
      using assms(2) unfolding try_block_def
      by (auto simp: a split: if_splits prod.splits sum.splits dest: ex gf)
  qed
  have c_wait: ?thesis if a: "action step = ''wait''"
  proof -
    note ex = execution_failsD[OF assms(1), unfolded a]
    show ?thesis
      using assms(2) unfolding try_block_def
      by (auto simp: a split: if_splits prod.splits sum.splits dest: ex gf)
  qed
  have c_type: ?thesis if a: "action step = ''type''"
  proof -
    note ex = execution_failsD[OF assms(1), unfolded a]
    show ?thesis
      using assms(2) unfolding try_block_def
      by (auto simp: a split: if_splits prod.splits sum.splits dest: ex gf)
  qed
  have c_other: ?thesis
    if "action step \<noteq> ''click''" "action step \<noteq> ''fill''" "action step \<noteq> ''expect''"
       "action step \<noteq> ''wait''" "action step \<noteq> ''type''"
    using assms(2) that unfolding try_block_def
    by (auto split: if_splits prod.splits sum.splits dest: gf)
  show ?thesis
    using c_click c_fill c_expect c_wait c_type c_other by blast
qed

lemma executeStepWithMCP_repaired:
  "\<exists>out s'. executeStepWithMCP m step url b s = (Inr out, s') \<and> repaired_from m step out"
proof (cases "try_block m step url b s")
  case (Pair r s')
  show ?thesis
  proof (cases r)
    case (Inl e)
    with Pair have "executeStepWithMCP m step url b s =
        (Inr (step\<lparr>target := target step, description := description step\<rparr>), s')"
      by (simp add: executeStepWithMCP_def)
    moreover have "repaired_from m step (step\<lparr>target := target step, description := description step\<rparr>)"
    proof -
      have "\<exists>t d. step\<lparr>target := target step, description := description step\<rparr> =
          step\<lparr>target := t, description := d\<rparr>" by blast
      then show ?thesis unfolding repaired_from_def by simp
    qed
    ultimately show ?thesis by blast
  next
    case (Inr td)
    obtain t d where td: "td = (t, d)" by (cases td)
    with Pair Inr have tb: "try_block m step url b s = (Inr (t, d), s')" by simp
    then have "executeStepWithMCP m step url b s =
        (Inr (step\<lparr>target := t, description := d\<rparr>), s')"
      by (simp add: executeStepWithMCP_def)
    moreover have "repaired_from m step (step\<lparr>target := t, description := d\<rparr>)"
      unfolding repaired_from_def
      using try_block_target_kept[OF _ tb] try_block_description_kept[OF _ tb] by auto
    ultimately show ?thesis by blast
  qed
qed

lemma executeScenario_loop_repaired:
  "\<exists>out s'. executeScenario_loop m url i stps s acc = (acc @ out, s') \<and>
     list_all2 (repaired_from m) stps out"
proof (induction stps arbitrary: i s acc)
  case Nil
  show ?case by simp
next
  case (Cons step rest)
  obtain o1 s1 where st: "executeStepWithMCP m step url (i = 0) s = (Inr o1, s1)"
    and r1: "repaired_from m step o1"
    using executeStepWithMCP_repaired[of m step url "i = 0" s] by blast
  obtain out s' where
    lp: "executeScenario_loop m url (i + 1) rest s1 (acc @ [o1]) = ((acc @ [o1]) @ out, s')"
    and r2: "list_all2 (repaired_from m) rest out"
    using Cons.IH[of "i + 1" s1 "acc @ [o1]"] by blast
  have "executeScenario_loop m url i (step # rest) s acc = (acc @ (o1 # out), s')"
    using st lp by simp
  moreover have "list_all2 (repaired_from m) (step # rest) (o1 # out)"
    using r1 r2 by simp
  ultimately show ?case by blast
qed

lemma executeScenarioWithMCP_repaired:
  "\<exists>out s'. executeScenarioWithMCP m url stps s = (Inr out, s') \<and>
     list_all2 (repaired_from m) stps out"
proof -
  obtain out s' where "executeScenario_loop m url 0 stps s [] = ([] @ out, s')"
    and "list_all2 (repaired_from m) stps out"
    using executeScenario_loop_repaired[of m url 0 stps s "[]"] by blast
  then show ?thesis by (auto simp: executeScenarioWithMCP_def)
qed

lemma repaired_from_fields:
  "repaired_from m step out \<Longrightarrow> action out = action step \<and> data out = data step"
  unfolding repaired_from_def by auto

lemma repaired_list_fields:
  "list_all2 (repaired_from m) stps out \<Longrightarrow>
   map action out = map action stps \<and> map data out = map data stps"
  by (induction rule: list_all2_induct) (auto dest: repaired_from_fields)


lemma Promise_all_map:
  assumes "\<And>x. x \<in> set xs \<Longrightarrow> \<exists>y. f x = Inr y \<and> R x y"
  shows "\<exists>ys. Promise_all (map f xs) = Inr ys \<and> list_all2 R xs ys"
  using assms
proof (induction xs)
  case Nil
  show ?case by simp
next
  case (Cons x xs)
  obtain y where y: "f x = Inr y" "R x y" using Cons.prems[of x] by auto
  obtain ys where ys: "Promise_all (map f xs) = Inr ys" "list_all2 R xs ys"
    using Cons.IH Cons.prems by auto
  have "Promise_all (map f (x # xs)) = Inr (y # ys)" using y ys by simp
  moreover have "list_all2 R (x # xs) (y # ys)" using y ys by simp
  ultimately show ?case by blast
qed

lemma scenario_callback_repaired:
  "\<exists>sc. scenario_callback m clock url scn s = Inr sc \<and> same_scenario scn sc \<and>
     list_all2 (repaired_from m) (steps scn) (steps sc)"
proof -
  obtain out s' where r: "executeScenarioWithMCP m url (steps scn) s = (Inr out, s')"
    and l: "list_all2 (repaired_from m) (steps scn) out"
    using executeScenarioWithMCP_repaired[of m url "steps scn" s] by blast
  let ?sc = "scn\<lparr>steps := out,
      timeTakenToCompile := Some (show_int (clock s' - clock s) @ ''ms'')\<rparr>"
  have "scenario_callback m clock url scn s = Inr ?sc"
    using r by (simp add: scenario_callback_def)
  moreover have "same_scenario scn ?sc"
    using list_all2_lengthD[OF l] by (simp add: same_scenario_def)
  moreover have "list_all2 (repaired_from m) (steps scn) (steps ?sc)"
    using l by simp
  ultimately show ?thesis by blast
qed

lemma validateSelectorsWithMCP_repaired:
  "\<exists>out. validateSelectorsWithMCP m clock url scns starts = Inr out \<and>
     list_all2 (\<lambda>scn sc. same_scenario scn sc \<and>
        list_all2 (repaired_from m) (steps scn) (steps sc)) scns out"
proof -
  let ?f = "\<lambda>(i, scenario). scenario_callback m clock url scenario (starts i)"
  let ?R = "\<lambda>p sc. same_scenario (snd p) sc \<and>
      list_all2 (repaired_from m) (steps (snd p)) (steps sc)"
  have "\<exists>y. ?f x = Inr y \<and> ?R x y" for x
    using scenario_callback_repaired[of m clock url "snd x" "starts (fst x)"]
    by (cases x) simp
  then obtain out where o: "Promise_all (map ?f (enumerate 0 scns)) = Inr out"
    and l: "list_all2 ?R (enumerate 0 scns) out"
    using Promise_all_map[of "enumerate 0 scns" ?f ?R] by blast
  from l have "list_all2 (\<lambda>scn sc. same_scenario scn sc \<and>
        list_all2 (repaired_from m) (steps scn) (steps sc)) (map snd (enumerate 0 scns)) out"
    unfolding list_all2_map1 .
  then have "list_all2 (\<lambda>scn sc. same_scenario scn sc \<and>
        list_all2 (repaired_from m) (steps scn) (steps sc)) scns out"
    by (simp only: map_snd_enumerate)
  with o show ?thesis by (auto simp: validateSelectorsWithMCP_def)
qed

lemma same_scenario_refl: "list_all2 same_scenario scns scns"
  by (simp add: list_all2_same same_scenario_def)

subsection \<open>The orchestrator's claims\<close>

text \<open>
  C1. For every list of scenarios, the empty one included, every client, clock and world,
  \<^verbatim>\<open>validateSelectorsWithMCP\<close> returns a list and does not throw, and the list has one
  scenario per input scenario, in the input's order: the same id, name and tags and the same
  number of steps at each position. The same holds for the scenarios the session tier
  leaves, connected or not. Every function of the model is total, each backend call being a
  function that answers or throws: a run ends provided each call to the backend does.
\<close>

theorem repair_same_length_and_order:
  "(\<exists>out. validateSelectorsWithMCP m clock url scns starts = Inr out \<and>
      length out = length scns \<and> list_all2 same_scenario scns out) \<and>
   validateSelectorsWithMCP m clock url [] starts = Inr [] \<and>
   (\<exists>out successful c'. mcp_session w c url scns s starts = (out, successful, c') \<and>
      length out = length scns \<and> list_all2 same_scenario scns out)"
proof (intro conjI)
  obtain out where o: "validateSelectorsWithMCP m clock url scns starts = Inr out"
    and l: "list_all2 (\<lambda>scn sc. same_scenario scn sc \<and>
        list_all2 (repaired_from m) (steps scn) (steps sc)) scns out"
    using validateSelectorsWithMCP_repaired[of m clock url scns starts] by blast
  from l have "list_all2 same_scenario scns out"
    by (rule list_all2_mono) simp
  with o show "\<exists>out. validateSelectorsWithMCP m clock url scns starts = Inr out \<and>
      length out = length scns \<and> list_all2 same_scenario scns out"
    by (auto dest: list_all2_lengthD)
  show "validateSelectorsWithMCP m clock url [] starts = Inr []"
    by (simp add: validateSelectorsWithMCP_def)
  obtain connected c1 s1 where cn: "connect w c s = ((connected, c1), s1)"
    by (metis surj_pair)
  show "\<exists>out successful c'. mcp_session w c url scns s starts = (out, successful, c') \<and>
      length out = length scns \<and> list_all2 same_scenario scns out"
  proof (cases connected)
    case False
    with cn have "mcp_session w c url scns s starts = (scns, False, disconnect c1)"
      by (simp add: mcp_session_def)
    then show ?thesis using same_scenario_refl by blast
  next
    case True
    obtain out2 where o2: "validateSelectorsWithMCP (MCPClient_methods w c1) (now w) url scns
        starts = Inr out2"
      and l2: "list_all2 (\<lambda>scn sc. same_scenario scn sc \<and>
        list_all2 (repaired_from (MCPClient_methods w c1)) (steps scn) (steps sc)) scns out2"
      using validateSelectorsWithMCP_repaired[of "MCPClient_methods w c1" "now w" url scns starts]
      by blast
    from l2 have s2: "list_all2 same_scenario scns out2"
      by (rule list_all2_mono) simp
    from True cn o2 have "mcp_session w c url scns s starts = (out2, True, disconnect c1)"
      by (simp add: mcp_session_def)
    with s2 show ?thesis by (auto dest: list_all2_lengthD)
  qed
qed

text \<open>
  C9. Repairing a scenario's steps returns one step per input step, in the input's order,
  each being the input step with at most its target and description replaced, so that
  actions and data are those of the input; the same holds for every scenario that
  \<^verbatim>\<open>validateSelectorsWithMCP\<close> returns. Each generator's text is its header, then one block
  per step in the order of the steps, each block computed from its step alone and
  neighbours separated by an empty line, then the closing line.
\<close>

theorem step_order_preserved:
  "(\<exists>out s'. executeScenarioWithMCP m url stps s = (Inr out, s') \<and>
      length out = length stps \<and>
      list_all2 (\<lambda>step st. \<exists>t d. st = step\<lparr>target := t, description := d\<rparr>) stps out \<and>
      map action out = map action stps \<and> map data out = map data stps) \<and>
   (\<exists>outs. validateSelectorsWithMCP m clock url scns starts = Inr outs \<and>
      list_all2 (\<lambda>scn sc.
          list_all2 (\<lambda>step st. \<exists>t d. st = step\<lparr>target := t, description := d\<rparr>)
            (steps scn) (steps sc) \<and>
          map action (steps sc) = map action (steps scn) \<and>
          map data (steps sc) = map data (steps scn)) scns outs) \<and>
   generatePlaywrightTest scn opts =
     file_header (name scn) @ separated (map (step_code opts) (steps scn)) @ file_footer \<and>
   generatePlaywrightTest_combined scn opts =
     file_header (name scn) @ separated (map (step_code_combined opts) (steps scn)) @
     file_footer"
proof (intro conjI)
  have shape: "list_all2 (\<lambda>step st. \<exists>t d. st = step\<lparr>target := t, description := d\<rparr>) xs ys"
    if "list_all2 (repaired_from m) xs ys" for xs ys
    using that by (rule list_all2_mono) (simp add: repaired_from_def)
  obtain out s' where o: "executeScenarioWithMCP m url stps s = (Inr out, s')"
    and l: "list_all2 (repaired_from m) stps out"
    using executeScenarioWithMCP_repaired[of m url stps s] by blast
  show "\<exists>out s'. executeScenarioWithMCP m url stps s = (Inr out, s') \<and>
      length out = length stps \<and>
      list_all2 (\<lambda>step st. \<exists>t d. st = step\<lparr>target := t, description := d\<rparr>) stps out \<and>
      map action out = map action stps \<and> map data out = map data stps"
    using o shape[OF l] repaired_list_fields[OF l] list_all2_lengthD[OF l] by auto
  obtain outs where os: "validateSelectorsWithMCP m clock url scns starts = Inr outs"
    and ls: "list_all2 (\<lambda>scn sc. same_scenario scn sc \<and>
        list_all2 (repaired_from m) (steps scn) (steps sc)) scns outs"
    using validateSelectorsWithMCP_repaired[of m clock url scns starts] by blast
  from ls have "list_all2 (\<lambda>scn sc.
          list_all2 (\<lambda>step st. \<exists>t d. st = step\<lparr>target := t, description := d\<rparr>)
            (steps scn) (steps sc) \<and>
          map action (steps sc) = map action (steps scn) \<and>
          map data (steps sc) = map data (steps scn)) scns outs"
    by (rule list_all2_mono) (use shape repaired_list_fields in blast)
  with os show "\<exists>outs. validateSelectorsWithMCP m clock url scns starts = Inr outs \<and>
      list_all2 (\<lambda>scn sc.
          list_all2 (\<lambda>step st. \<exists>t d. st = step\<lparr>target := t, description := d\<rparr>)
            (steps scn) (steps sc) \<and>
          map action (steps sc) = map action (steps scn) \<and>
          map data (steps sc) = map data (steps scn)) scns outs"
    by blast
  show "generatePlaywrightTest scn opts =
     file_header (name scn) @ separated (map (step_code opts) (steps scn)) @ file_footer"
    by (rule generatePlaywrightTest_blocks)
  show "generatePlaywrightTest_combined scn opts =
     file_header (name scn) @ separated (map (step_code_combined opts) (steps scn)) @
     file_footer"
    by (rule generatePlaywrightTest_combined_blocks)
qed






















subsection \<open>The automation session's claim\<close>

text \<open>
  C4, as the code has it. \<^verbatim>\<open>validateSelector\<close> never throws, and its result carries no
  improved selector exactly when it reports failure. It reports failure, with no selector,
  when the client is not connected (the backend is not called) and when the tool call
  throws (the error is the thrown error's message). When the client is connected and the
  tool call returns, it reports success and always carries a selector: the reply's own
  \<^verbatim>\<open>improvedSelector\<close> when the first content item is text that parses to a value other than
  null with a non-empty one; the selector it was asked about when that text parses to a
  value other than null with none, or when the reply's first content item is not text; and
  the reply text itself when that text does not parse, or parses to null.
\<close>

theorem validateSelector_result:
  "(\<exists>r s'. validateSelector w c s sel = (Inr r, s') \<and>
      (improvedSelector r = None \<longleftrightarrow> \<not> success r)) \<and>
   (\<not> isConnected c \<or> \<not> has_client c \<longrightarrow>
      validateSelector w c s sel =
        (Inr \<lparr>success = False, improvedSelector = None,
              error = Some ''Not connected to MCP server'', executionTime = None\<rparr>, s)) \<and>
   (isConnected c \<and> has_client c \<and>
    callTool w s ''playwright_validate_selector''
      [(''selector'', StrArg sel), (''context'', StrArg ''validation'')] = (Inl e, sa) \<longrightarrow>
      validateSelector w c s sel =
        (Inr \<lparr>success = False, improvedSelector = None,
              error = Some (case e of Error msg \<Rightarrow> msg | NonError \<Rightarrow> ''Unknown error''),
              executionTime = None\<rparr>, sa)) \<and>
   (isConnected c \<and> has_client c \<and>
    callTool w s ''playwright_validate_selector''
      [(''selector'', StrArg sel), (''context'', StrArg ''validation'')] = (Inr result, sa) \<longrightarrow>
      (\<exists>r. validateSelector w c s sel = (Inr r, sa) \<and> success r \<and> error r = None \<and>
         improvedSelector r =
           (case first_text result of
              None \<Rightarrow> Some sel
            | Some t \<Rightarrow>
                (case JSON_parse w t of
                   Parsed p \<Rightarrow>
                     (if truthy (p_improvedSelector p) then p_improvedSelector p else Some sel)
                 | SyntaxError \<Rightarrow> Some t
                 | ParsedNull \<Rightarrow> Some t))))"
proof (intro conjI impI)
  show "\<exists>r s'. validateSelector w c s sel = (Inr r, s') \<and>
      (improvedSelector r = None \<longleftrightarrow> \<not> success r)"
    by (auto simp: validateSelector_def failure_def
        split: prod.splits sum.splits option.splits parse_result.splits)
next
  assume "\<not> isConnected c \<or> \<not> has_client c"
  then show "validateSelector w c s sel =
        (Inr \<lparr>success = False, improvedSelector = None,
              error = Some ''Not connected to MCP server'', executionTime = None\<rparr>, s)"
    by (auto simp: validateSelector_def failure_def)
next
  assume "isConnected c \<and> has_client c \<and>
    callTool w s ''playwright_validate_selector''
      [(''selector'', StrArg sel), (''context'', StrArg ''validation'')] = (Inl e, sa)"
  then show "validateSelector w c s sel =
        (Inr \<lparr>success = False, improvedSelector = None,
              error = Some (case e of Error msg \<Rightarrow> msg | NonError \<Rightarrow> ''Unknown error''),
              executionTime = None\<rparr>, sa)"
    by (simp add: validateSelector_def failure_def error_message_def)
next
  assume h: "isConnected c \<and> has_client c \<and>
    callTool w s ''playwright_validate_selector''
      [(''selector'', StrArg sel), (''context'', StrArg ''validation'')] = (Inr result, sa)"
  show "\<exists>r. validateSelector w c s sel = (Inr r, sa) \<and> success r \<and> error r = None \<and>
         improvedSelector r =
           (case first_text result of
              None \<Rightarrow> Some sel
            | Some t \<Rightarrow>
                (case JSON_parse w t of
                   Parsed p \<Rightarrow>
                     (if truthy (p_improvedSelector p) then p_improvedSelector p else Some sel)
                 | SyntaxError \<Rightarrow> Some t
                 | ParsedNull \<Rightarrow> Some t))"
    using h
    by (auto simp: validateSelector_def string_or_def truthy_def
        split: option.splits parse_result.splits)
qed

theorem validateSelector_result_witness:
  "isConnected connected_client \<and> has_client connected_client \<and>
   callTool sample_world 0 ''playwright_validate_selector''
     [(''selector'', StrArg ''#login''), (''context'', StrArg ''validation'')] =
     (Inr \<lparr>content = Some [TextContent ''[data-testid=login]'']\<rparr>, 1) \<and>
   JSON_parse sample_world ''[data-testid=login]'' = SyntaxError \<and>
   validateSelector sample_world connected_client 0 ''#login'' =
     (Inr \<lparr>success = True, improvedSelector = Some ''[data-testid=login]'', error = None,
           executionTime = Some (Number 0)\<rparr>, 1) \<and>
   callTool sample_world 0 ''playwright_validate_selector''
     [(''selector'', StrArg ''#submit''), (''context'', StrArg ''validation'')] =
     (Inl (Error ''no such element''), 1) \<and>
   validateSelector sample_world connected_client 0 ''#submit'' =
     (Inr \<lparr>success = False, improvedSelector = None, error = Some ''no such element'',
           executionTime = None\<rparr>, 1) \<and>
   \<not> isConnected fresh_client \<and>
   validateSelector sample_world fresh_client 0 ''#login'' =
     (Inr \<lparr>success = False, improvedSelector = None,
           error = Some ''Not connected to MCP server'', executionTime = None\<rparr>, 0)"
proof -
  have c: "isConnected connected_client \<and> has_client connected_client"
    by (simp add: connected_client_def)
  have call: "callTool sample_world 0 ''playwright_validate_selector''
     [(''selector'', StrArg ''#login''), (''context'', StrArg ''validation'')] =
     (Inr \<lparr>content = Some [TextContent ''[data-testid=login]'']\<rparr>, 1)"
    by (simp add: sample_world_def)
  have parse: "JSON_parse sample_world ''[data-testid=login]'' = SyntaxError"
    by (simp add: sample_world_def)
  from validateSelector_result[of sample_world connected_client 0 "''#login''" _ _
      "\<lparr>content = Some [TextContent ''[data-testid=login]'']\<rparr>"] c call parse
  have login: "validateSelector sample_world connected_client 0 ''#login'' =
     (Inr \<lparr>success = True, improvedSelector = Some ''[data-testid=login]'', error = None,
           executionTime = Some (Number 0)\<rparr>, 1)"
    by (simp add: validateSelector_def first_text_def)
  have thrown: "callTool sample_world 0 ''playwright_validate_selector''
     [(''selector'', StrArg ''#submit''), (''context'', StrArg ''validation'')] =
     (Inl (Error ''no such element''), 1)"
    by (simp add: sample_world_def)
  from validateSelector_result[of sample_world connected_client 0 "''#submit''"
      "Error ''no such element''" 1] c thrown
  have submit: "validateSelector sample_world connected_client 0 ''#submit'' =
     (Inr \<lparr>success = False, improvedSelector = None, error = Some ''no such element'',
           executionTime = None\<rparr>, 1)"
    by simp
  have f: "\<not> isConnected fresh_client" by (simp add: fresh_client_def)
  from validateSelector_result[of sample_world fresh_client 0 "''#login''"] f
  have fresh: "validateSelector sample_world fresh_client 0 ''#login'' =
     (Inr \<lparr>success = False, improvedSelector = None,
           error = Some ''Not connected to MCP server'', executionTime = None\<rparr>, 0)"
    by simp
  from c call parse login thrown submit f fresh show ?thesis by simp
qed

text \<open>
  C4, the claim as stated, fails: asked about \<^verbatim>\<open>#user\<close>, the backend answers \<^verbatim>\<open>{}\<close>, which
  names no improved selector, and the result carries \<^verbatim>\<open>#user\<close> as its improved selector.
\<close>

theorem no_improvement_still_carries_selector:
  "fst (callTool sample_world 0 ''playwright_validate_selector''
     [(''selector'', StrArg ''#user''), (''context'', StrArg ''validation'')]) =
     Inr \<lparr>content = Some [TextContent ''{}'']\<rparr> \<and>
   JSON_parse sample_world ''{}'' = Parsed \<lparr>p_improvedSelector = None, p_executionTime = None\<rparr> \<and>
   fst (validateSelector sample_world connected_client 0 ''#user'') =
     Inr \<lparr>success = True, improvedSelector = Some ''#user'', error = None,
          executionTime = Some (Number 0)\<rparr>"
  by (simp add: validateSelector_def sample_world_def connected_client_def first_text_def
      string_or_def truthy_def number_or_def)

section \<open>Properties of the scenario generator\<close>

lemma map_throwing_all:
  assumes "\<And>x. x \<in> set xs \<Longrightarrow> \<exists>y. f x = Inr y \<and> R x y"
  shows "\<exists>ys. map_throwing f xs = Inr ys \<and> list_all2 R xs ys"
  using assms
proof (induction xs)
  case Nil
  show ?case by simp
next
  case (Cons x xs)
  obtain y where y: "f x = Inr y" "R x y" using Cons.prems[of x] by auto
  obtain ys where ys: "map_throwing f xs = Inr ys" "list_all2 R xs ys"
    using Cons.IH Cons.prems by auto
  have "map_throwing f (x # xs) = Inr (y # ys)" using y ys by simp
  moreover have "list_all2 R (x # xs) (y # ys)" using y ys by simp
  ultimately show ?case by blast
qed

lemma map_throwing_throws:
  assumes "x \<in> set xs" and "f x = Inl e"
  shows "\<exists>e'. map_throwing f xs = Inl e'"
  using assms by (induction xs) (auto split: sum.splits)

lemma list_all_memberD: "list_all P xs \<Longrightarrow> x \<in> set xs \<Longrightarrow> P x"
  by (simp add: list_all_iff)

lemma not_list_all_nth: "\<not> list_all P xs \<Longrightarrow> \<exists>k<length xs. \<not> P (xs ! k)"
  by (auto simp: list_all_iff in_set_conv_nth)

lemma convert_step_object:
  "\<exists>t. convert_step k (Some x) = Inr t \<and> action t = string_or (raw_action x) ''click''"
  by (simp add: convert_step_def)

lemma convert_step_null: "\<exists>e. convert_step k None = Inl e"
  by (simp add: convert_step_def)

lemma convert_steps_actions:
  assumes "list_all (\<lambda>st. st \<noteq> None) stps"
  shows "\<exists>converted.
     map_throwing (\<lambda>(stepIndex, step). convert_step stepIndex step) (enumerate n stps) =
       Inr converted \<and>
     map action converted = map (\<lambda>st. string_or (raw_action (the st)) ''click'') stps"
  using assms
proof (induction stps arbitrary: n)
  case Nil
  show ?case by simp
next
  case (Cons st stps)
  from Cons.prems obtain x where x: "st = Some x" by auto
  from Cons.prems have "list_all (\<lambda>st. st \<noteq> None) stps" by simp
  from Cons.IH[OF this, of "Suc n"] obtain converted where
    c: "map_throwing (\<lambda>(stepIndex, step). convert_step stepIndex step) (enumerate (Suc n) stps) =
          Inr converted"
    and m: "map action converted = map (\<lambda>st. string_or (raw_action (the st)) ''click'') stps"
    by blast
  from convert_step_object[of n x] obtain t where
    t: "convert_step n (Some x) = Inr t" "action t = string_or (raw_action x) ''click''"
    by blast
  show ?case using x c m t by simp
qed

lemma convert_steps_null:
  assumes "\<not> list_all (\<lambda>st. st \<noteq> None) stps"
  shows "\<exists>e. map_throwing (\<lambda>(stepIndex, step). convert_step stepIndex step) (enumerate n stps) =
     Inl e"
proof -
  from assms obtain k where k: "k < length stps" "stps ! k = None"
    by (auto simp: list_all_iff in_set_conv_nth)
  then have "(n + k, None) \<in> set (enumerate n stps)"
    by (simp add: in_set_enumerate_eq)
  moreover from convert_step_null[of "n + k"] obtain e where
    "(\<lambda>(stepIndex, step). convert_step stepIndex step) (n + k, None) = Inl e"
    by auto
  ultimately show ?thesis by (rule map_throwing_throws)
qed

lemma convert_scenario_actions:
  assumes "r \<noteq> None" and "raw_steps (the r) \<noteq> None"
    and "list_all (\<lambda>st. st \<noteq> None) (the (raw_steps (the r)))"
  shows "\<exists>sc. convert_scenario k r = Inr sc \<and>
     map action (steps sc) =
       map (\<lambda>st. string_or (raw_action (the st)) ''click'') (the (raw_steps (the r)))"
proof -
  from assms obtain scn stps where s: "r = Some scn" "raw_steps scn = Some stps" by auto
  with assms(3) have "list_all (\<lambda>st. st \<noteq> None) stps" by simp
  from convert_steps_actions[OF this, of 0] obtain converted where
    c: "map_throwing (\<lambda>(stepIndex, step). convert_step stepIndex step) (enumerate 0 stps) =
          Inr converted"
    and m: "map action converted = map (\<lambda>st. string_or (raw_action (the st)) ''click'') stps"
    by blast
  show ?thesis using s c m by (simp add: convert_scenario_def)
qed

lemma convert_scenario_throws:
  assumes "\<not> (r \<noteq> None \<and> raw_steps (the r) \<noteq> None \<and>
              list_all (\<lambda>st. st \<noteq> None) (the (raw_steps (the r))))"
  shows "\<exists>e. convert_scenario k r = Inl e"
proof (cases r)
  case None
  then show ?thesis by (simp add: convert_scenario_def)
next
  case (Some scn)
  show ?thesis
  proof (cases "raw_steps scn")
    case None
    with Some show ?thesis by (simp add: convert_scenario_def)
  next
    case (Some stps)
    with \<open>r = Some scn\<close> assms have "\<not> list_all (\<lambda>st. st \<noteq> None) stps" by simp
    from convert_steps_null[OF this, of 0] obtain e where
      "map_throwing (\<lambda>(stepIndex, step). convert_step stepIndex step) (enumerate 0 stps) = Inl e"
      by blast
    with Some \<open>r = Some scn\<close> show ?thesis by (simp add: convert_scenario_def)
  qed
qed

lemma click_recognized: "''click'' \<in> recognized_actions"
  by (simp add: recognized_actions_def)

lemma generateGeminiScenarios_returns: "\<exists>out. generateGeminiScenarios g i = Inr out"
  by (simp add: generateGeminiScenarios_def split: sum.splits)

text \<open>
  C3, as the code has it. Let the text service answer, its reply parse, and the parsed value
  have a \<^verbatim>\<open>scenarios\<close> array. When every element of that array is an object whose \<^verbatim>\<open>steps\<close>
  are an array of objects (none of them \<^verbatim>\<open>null\<close>), the generator returns one scenario per
  element of the array, and every step's action is the action the reply gave it, or
  \<^verbatim>\<open>click\<close> where the reply gave none; no action is checked against the recognized set, so
  the returned actions are recognized if the reply's actions are. When some element is
  \<^verbatim>\<open>null\<close>, has no steps to map over, or has a \<^verbatim>\<open>null\<close> step, the conversion throws and the
  generator returns the empty list.
\<close>

theorem generate_length_and_actions:
  "generateTestScenarios g (objective i) (intake_url i) (credentials i) = Inr reply \<and>
   parseGeminiResponse g reply = Inr p \<and> scenarios p = Some raws \<longrightarrow>
     (list_all (\<lambda>r. r \<noteq> None \<and> raw_steps (the r) \<noteq> None \<and>
                     list_all (\<lambda>st. st \<noteq> None) (the (raw_steps (the r)))) raws \<longrightarrow>
        (\<exists>out. generateGeminiScenarios g i = Inr out \<and> length out = length raws \<and>
           list_all2 (\<lambda>r sc. map action (steps sc) =
               map (\<lambda>st. string_or (raw_action (the st)) ''click'') (the (raw_steps (the r))))
             raws out \<and>
           (list_all (\<lambda>r. list_all (\<lambda>st. truthy (raw_action (the st)) \<longrightarrow>
                 the (raw_action (the st)) \<in> recognized_actions) (the (raw_steps (the r)))) raws
            \<longrightarrow>
            list_all (\<lambda>sc. list_all (\<lambda>st. action st \<in> recognized_actions) (steps sc)) out))) \<and>
     (\<not> list_all (\<lambda>r. r \<noteq> None \<and> raw_steps (the r) \<noteq> None \<and>
                       list_all (\<lambda>st. st \<noteq> None) (the (raw_steps (the r)))) raws \<longrightarrow>
        generateGeminiScenarios g i = Inr [])"
proof (intro impI conjI)
  assume h: "generateTestScenarios g (objective i) (intake_url i) (credentials i) = Inr reply \<and>
   parseGeminiResponse g reply = Inr p \<and> scenarios p = Some raws"
  assume wf: "list_all (\<lambda>r. r \<noteq> None \<and> raw_steps (the r) \<noteq> None \<and>
                     list_all (\<lambda>st. st \<noteq> None) (the (raw_steps (the r)))) raws"
  let ?R = "\<lambda>r sc. map action (steps sc) =
            map (\<lambda>st. string_or (raw_action (the st)) ''click'') (the (raw_steps (the r)))"
  let ?f = "\<lambda>(index, scenario). convert_scenario index scenario"
  have "\<exists>y. ?f x = Inr y \<and> ?R (snd x) y" if "x \<in> set (enumerate 0 raws)" for x
  proof -
    from that have "fst x < length raws" "snd x = raws ! fst x"
      by (simp_all add: in_set_enumerate_eq)
    then have "snd x \<in> set raws" by simp
    from list_all_memberD[OF wf this]
    have "snd x \<noteq> None" "raw_steps (the (snd x)) \<noteq> None"
      "list_all (\<lambda>st. st \<noteq> None) (the (raw_steps (the (snd x))))"
      by blast+
    from convert_scenario_actions[OF this, of "fst x"] show ?thesis
      by (simp add: case_prod_unfold)
  qed
  then obtain out where o: "map_throwing ?f (enumerate 0 raws) = Inr out"
    and l: "list_all2 (\<lambda>x. ?R (snd x)) (enumerate 0 raws) out"
    using map_throwing_all[of "enumerate 0 raws" ?f "\<lambda>x. ?R (snd x)"] by blast
  from l have "list_all2 ?R (map snd (enumerate 0 raws)) out"
    unfolding list_all2_map1 .
  then have l2: "list_all2 ?R raws out" by (simp only: map_snd_enumerate)
  from h o have g: "generateGeminiScenarios g i = Inr out"
    by (simp add: generateGeminiScenarios_def try_generate_def)
  have rec: "list_all (\<lambda>sc. list_all (\<lambda>st. action st \<in> recognized_actions) (steps sc)) out"
    if a: "list_all (\<lambda>r. list_all (\<lambda>st. truthy (raw_action (the st)) \<longrightarrow>
              the (raw_action (the st)) \<in> recognized_actions) (the (raw_steps (the r)))) raws"
  proof -
    have "action st \<in> recognized_actions" if sc: "sc \<in> set out" and st: "st \<in> set (steps sc)"
      for sc st
    proof -
      from sc obtain k where k: "k < length out" "out ! k = sc" by (auto simp: in_set_conv_nth)
      with l2 have kr: "k < length raws" and rel: "?R (raws ! k) sc"
        by (auto simp: list_all2_conv_all_nth)
      from st have "action st \<in> set (map action (steps sc))" by simp
      with rel obtain rst where rst: "rst \<in> set (the (raw_steps (the (raws ! k))))"
        and ac: "action st = string_or (raw_action (the rst)) ''click''" by auto
      from a kr rst have "truthy (raw_action (the rst)) \<longrightarrow>
          the (raw_action (the rst)) \<in> recognized_actions"
        by (auto simp: list_all_iff)
      with ac show ?thesis by (auto simp: string_or_def click_recognized)
    qed
    then show ?thesis by (auto simp: list_all_iff)
  qed
  have len: "length out = length raws" using list_all2_lengthD[OF l2] by simp
  have "generateGeminiScenarios g i = Inr out \<and> length out = length raws \<and>
        list_all2 ?R raws out \<and>
        (list_all (\<lambda>r. list_all (\<lambda>st. truthy (raw_action (the st)) \<longrightarrow>
              the (raw_action (the st)) \<in> recognized_actions) (the (raw_steps (the r)))) raws \<longrightarrow>
         list_all (\<lambda>sc. list_all (\<lambda>st. action st \<in> recognized_actions) (steps sc)) out)"
    using g len l2 rec by blast
  then show "\<exists>out. generateGeminiScenarios g i = Inr out \<and> length out = length raws \<and>
        list_all2 ?R raws out \<and>
        (list_all (\<lambda>r. list_all (\<lambda>st. truthy (raw_action (the st)) \<longrightarrow>
              the (raw_action (the st)) \<in> recognized_actions) (the (raw_steps (the r)))) raws \<longrightarrow>
         list_all (\<lambda>sc. list_all (\<lambda>st. action st \<in> recognized_actions) (steps sc)) out)"
    by (rule exI)
next
  assume h: "generateTestScenarios g (objective i) (intake_url i) (credentials i) = Inr reply \<and>
   parseGeminiResponse g reply = Inr p \<and> scenarios p = Some raws"
  assume nwf: "\<not> list_all (\<lambda>r. r \<noteq> None \<and> raw_steps (the r) \<noteq> None \<and>
                     list_all (\<lambda>st. st \<noteq> None) (the (raw_steps (the r)))) raws"
  let ?f = "\<lambda>(index, scenario). convert_scenario index scenario"
  from not_list_all_nth[OF nwf] obtain k where k: "k < length raws"
    and bad: "\<not> (raws ! k \<noteq> None \<and> raw_steps (the (raws ! k)) \<noteq> None \<and>
                 list_all (\<lambda>st. st \<noteq> None) (the (raw_steps (the (raws ! k)))))"
    by blast
  from convert_scenario_throws[OF bad, of k] obtain e where
    e: "convert_scenario k (raws ! k) = Inl e" by blast
  from k have mem: "(k, raws ! k) \<in> set (enumerate 0 raws)"
    by (simp add: in_set_enumerate_eq)
  from e have thr: "?f (k, raws ! k) = Inl e" by simp
  from map_throwing_throws[of "(k, raws ! k)" "enumerate 0 raws" ?f e, OF mem thr]
  obtain e' where "map_throwing ?f (enumerate 0 raws) = Inl e'" ..
  with h show "generateGeminiScenarios g i = Inr []"
    by (simp add: generateGeminiScenarios_def try_generate_def)
qed

lemma sample_login_service:
  "generateTestScenarios sample_gemini ''login'' ''https://x.test'' None = Inr login_json"
  by code_simp

lemma sample_login_parse:
  "parseGeminiResponse sample_gemini login_json = Inr \<lparr>scenarios = Some login_raws\<rparr>"
  by code_simp

lemma sample_null_step_service:
  "generateTestScenarios sample_gemini ''null step'' ''https://x.test'' None =
     Inr null_step_json"
  by code_simp

lemma sample_null_step_parse:
  "parseGeminiResponse sample_gemini null_step_json = Inr \<lparr>scenarios = Some null_step_raws\<rparr>"
  by code_simp

theorem generate_length_and_actions_witness:
  "generateTestScenarios sample_gemini (objective (sample_intake ''login''))
     (intake_url (sample_intake ''login'')) (credentials (sample_intake ''login'')) =
     Inr login_json \<and>
   parseGeminiResponse sample_gemini login_json = Inr \<lparr>scenarios = Some login_raws\<rparr> \<and>
   list_all (\<lambda>r. r \<noteq> None \<and> raw_steps (the r) \<noteq> None \<and>
                  list_all (\<lambda>st. st \<noteq> None) (the (raw_steps (the r)))) login_raws \<and>
   list_all (\<lambda>r. list_all (\<lambda>st. truthy (raw_action (the st)) \<longrightarrow>
       the (raw_action (the st)) \<in> recognized_actions) (the (raw_steps (the r)))) login_raws \<and>
   (\<exists>out. generateGeminiScenarios sample_gemini (sample_intake ''login'') = Inr out \<and>
      length out = 1 \<and>
      list_all (\<lambda>sc. list_all (\<lambda>st. action st \<in> recognized_actions) (steps sc)) out) \<and>
   generateTestScenarios sample_gemini (objective (sample_intake ''null step''))
     (intake_url (sample_intake ''null step'')) (credentials (sample_intake ''null step'')) =
     Inr null_step_json \<and>
   parseGeminiResponse sample_gemini null_step_json =
     Inr \<lparr>scenarios = Some null_step_raws\<rparr> \<and>
   \<not> list_all (\<lambda>r. r \<noteq> None \<and> raw_steps (the r) \<noteq> None \<and>
                    list_all (\<lambda>st. st \<noteq> None) (the (raw_steps (the r)))) null_step_raws \<and>
   generateGeminiScenarios sample_gemini (sample_intake ''null step'') = Inr []"
proof -
  have a: "generateTestScenarios sample_gemini (objective (sample_intake ''login''))
     (intake_url (sample_intake ''login'')) (credentials (sample_intake ''login'')) =
     Inr login_json"
    by (simp add: sample_intake_def sample_login_service)
  have b: "list_all (\<lambda>r. r \<noteq> None \<and> raw_steps (the r) \<noteq> None \<and>
                  list_all (\<lambda>st. st \<noteq> None) (the (raw_steps (the r)))) login_raws"
    by (simp add: login_raws_def)
  have c: "list_all (\<lambda>r. list_all (\<lambda>st. truthy (raw_action (the st)) \<longrightarrow>
       the (raw_action (the st)) \<in> recognized_actions) (the (raw_steps (the r)))) login_raws"
    by (simp add: login_raws_def truthy_def recognized_actions_def)
  have l: "length login_raws = 1" by (simp add: login_raws_def)
  have login: "\<exists>out. generateGeminiScenarios sample_gemini (sample_intake ''login'') = Inr out \<and>
      length out = 1 \<and>
      list_all (\<lambda>sc. list_all (\<lambda>st. action st \<in> recognized_actions) (steps sc)) out"
    using generate_length_and_actions[of sample_gemini "sample_intake ''login''" login_json
      "\<lparr>scenarios = Some login_raws\<rparr>" login_raws] a sample_login_parse b c l
    by auto
  have a2: "generateTestScenarios sample_gemini (objective (sample_intake ''null step''))
     (intake_url (sample_intake ''null step'')) (credentials (sample_intake ''null step'')) =
     Inr null_step_json"
    by (simp add: sample_intake_def sample_null_step_service)
  have b2: "\<not> list_all (\<lambda>r. r \<noteq> None \<and> raw_steps (the r) \<noteq> None \<and>
                    list_all (\<lambda>st. st \<noteq> None) (the (raw_steps (the r)))) null_step_raws"
    by (simp add: null_step_raws_def)
  have null: "generateGeminiScenarios sample_gemini (sample_intake ''null step'') = Inr []"
    using generate_length_and_actions[of sample_gemini "sample_intake ''null step''"
      null_step_json "\<lparr>scenarios = Some null_step_raws\<rparr>" null_step_raws]
      a2 sample_null_step_parse b2
    by simp
  from a sample_login_parse b c login a2 sample_null_step_parse b2 null show ?thesis
    by blast
qed

text \<open>
  C3, the claim as stated, fails: the reply for the objective \<^verbatim>\<open>drag\<close> is well formed and
  holds a \<^verbatim>\<open>scenarios\<close> array of one scenario, and the generator returns that scenario with
  its step's action \<^verbatim>\<open>drag\<close>, which is not a recognized action.
\<close>

theorem unrecognized_action_passes_through:
  "generateTestScenarios sample_gemini ''drag'' ''https://x.test'' None = Inr drag_reply \<and>
   parseGeminiResponse sample_gemini drag_reply = Inr \<lparr>scenarios = Some drag_raws\<rparr> \<and>
   generateGeminiScenarios sample_gemini (sample_intake ''drag'') =
     Inr [\<lparr>scenario_id = ''scn_1'', name = ''Generated Scenario 1'',
           steps = [\<lparr>action = ''drag'', target = ''#card'', data = None,
                      description = ''Step 1''\<rparr>],
           timeTakenToCompile = None, tags = Some [''generated'']\<rparr>] \<and>
   ''drag'' \<notin> recognized_actions"
proof -
  have a: "generateTestScenarios sample_gemini ''drag'' ''https://x.test'' None = Inr drag_reply"
    by code_simp
  have b: "parseGeminiResponse sample_gemini drag_reply = Inr \<lparr>scenarios = Some drag_raws\<rparr>"
    by code_simp
  have c: "generateGeminiScenarios sample_gemini (sample_intake ''drag'') =
     Inr [\<lparr>scenario_id = ''scn_1'', name = ''Generated Scenario 1'',
           steps = [\<lparr>action = ''drag'', target = ''#card'', data = None,
                      description = ''Step 1''\<rparr>],
           timeTakenToCompile = None, tags = Some [''generated'']\<rparr>]"
    by code_simp
  have d: "''drag'' \<notin> recognized_actions" by (simp add: recognized_actions_def)
  from a b c d show ?thesis by blast
qed

lemma generateTestScenarios_transport:
  assumes "transport_failure (fetch g obj url creds)"
  shows "\<exists>e. generateTestScenarios g obj url creds = Inl e"
  using assms
  by (auto simp: transport_failure_def generateTestScenarios_def
      split: fetch_outcome.splits sum.splits)

lemma executeStepWithMCP_returns:
  "\<exists>st s'. executeStepWithMCP m step url b s = (Inr st, s')"
  using executeStepWithMCP_repaired[of m step url b s] by blast

text \<open>
  C5, as the code has it. When the outbound call fails at the transport level,
  \<^verbatim>\<open>GeminiService.generateTestScenarios\<close> throws to its caller, and its caller
  \<^verbatim>\<open>generateGeminiScenarios\<close> recovers: it returns the empty scenario list. The generator
  never throws, whatever the network and the parser do; a reply that does not parse gives
  the empty list; a failed connection leaves the scenarios as they were, with validation
  marked unsuccessful; and repairing a step always returns a step.
\<close>

theorem transport_failure_recovered:
  "(transport_failure (fetch g (objective i) (intake_url i) (credentials i)) \<longrightarrow>
      (\<exists>e. generateTestScenarios g (objective i) (intake_url i) (credentials i) = Inl e) \<and>
      generateGeminiScenarios g i = Inr []) \<and>
   (\<exists>out. generateGeminiScenarios g i = Inr out) \<and>
   (generateTestScenarios g (objective i) (intake_url i) (credentials i) = Inr reply \<and>
    parseGeminiResponse g reply = Inl e \<longrightarrow> generateGeminiScenarios g i = Inr []) \<and>
   (connectTransport w s = (Some ea, sa) \<longrightarrow>
      (\<exists>c'. mcp_session w c url scns s starts = (scns, False, c'))) \<and>
   (\<exists>st s'. executeStepWithMCP m step url b sb = (Inr st, s'))"
proof (intro conjI impI)
  assume t: "transport_failure (fetch g (objective i) (intake_url i) (credentials i))"
  then obtain e where e: "generateTestScenarios g (objective i) (intake_url i) (credentials i) =
      Inl e"
    using generateTestScenarios_transport by blast
  then show "\<exists>e. generateTestScenarios g (objective i) (intake_url i) (credentials i) = Inl e"
    by blast
  from e show "generateGeminiScenarios g i = Inr []"
    by (simp add: generateGeminiScenarios_def try_generate_def)
next
  show "\<exists>out. generateGeminiScenarios g i = Inr out"
    by (rule generateGeminiScenarios_returns)
next
  assume "generateTestScenarios g (objective i) (intake_url i) (credentials i) = Inr reply \<and>
    parseGeminiResponse g reply = Inl e"
  then show "generateGeminiScenarios g i = Inr []"
    by (simp add: generateGeminiScenarios_def try_generate_def)
next
  assume "connectTransport w s = (Some ea, sa)"
  then show "\<exists>c'. mcp_session w c url scns s starts = (scns, False, c')"
    by (simp add: mcp_session_def connect_def)
next
  show "\<exists>st s'. executeStepWithMCP m step url b sb = (Inr st, s')"
    by (rule executeStepWithMCP_returns)
qed

lemma sample_offline:
  "transport_failure (fetch sample_gemini (objective (sample_intake ''offline''))
     (intake_url (sample_intake ''offline'')) (credentials (sample_intake ''offline'')))"
  by (simp add: transport_failure_def sample_gemini_def sample_intake_def)

lemma sample_prose_service:
  "generateTestScenarios sample_gemini (objective (sample_intake ''prose''))
     (intake_url (sample_intake ''prose'')) (credentials (sample_intake ''prose'')) =
     Inr ''Sorry, no scenarios today.''"
  by code_simp

lemma sample_prose_parse:
  "parseGeminiResponse sample_gemini ''Sorry, no scenarios today.'' =
     Inl (Error ''Failed to parse Gemini response: Could not extract JSON from Gemini response'')"
  by code_simp

lemma sample_unreachable:
  "connectTransport unreachable_world 0 = (Some (Error ''spawn npx ENOENT''), 1)"
  by (simp add: unreachable_world_def)

theorem transport_failure_recovered_witness:
  "transport_failure (fetch sample_gemini (objective (sample_intake ''offline''))
     (intake_url (sample_intake ''offline'')) (credentials (sample_intake ''offline''))) \<and>
   generateTestScenarios sample_gemini (objective (sample_intake ''offline''))
     (intake_url (sample_intake ''offline'')) (credentials (sample_intake ''offline'')) =
     Inl (Error ''getaddrinfo ENOTFOUND'') \<and>
   generateGeminiScenarios sample_gemini (sample_intake ''offline'') = Inr [] \<and>
   transport_failure (fetch sample_gemini (objective (sample_intake ''quota''))
     (intake_url (sample_intake ''quota'')) (credentials (sample_intake ''quota''))) \<and>
   generateTestScenarios sample_gemini (objective (sample_intake ''quota''))
     (intake_url (sample_intake ''quota'')) (credentials (sample_intake ''quota'')) =
     Inl (Error ''Gemini API error: 429 - quota exceeded'') \<and>
   generateGeminiScenarios sample_gemini (sample_intake ''quota'') = Inr [] \<and>
   generateTestScenarios sample_gemini (objective (sample_intake ''prose''))
     (intake_url (sample_intake ''prose'')) (credentials (sample_intake ''prose'')) =
     Inr ''Sorry, no scenarios today.'' \<and>
   parseGeminiResponse sample_gemini ''Sorry, no scenarios today.'' =
     Inl (Error ''Failed to parse Gemini response: Could not extract JSON from Gemini response'') \<and>
   generateGeminiScenarios sample_gemini (sample_intake ''prose'') = Inr [] \<and>
   connectTransport unreachable_world 0 = (Some (Error ''spawn npx ENOENT''), 1) \<and>
   (\<exists>c'. mcp_session unreachable_world fresh_client ''https://x.test''
      [sample_scenario [fill_email, click_login]] 0 (\<lambda>k. 1) =
      ([sample_scenario [fill_email, click_login]], False, c'))"
proof -
  have svc: "generateTestScenarios sample_gemini (objective (sample_intake ''offline''))
     (intake_url (sample_intake ''offline'')) (credentials (sample_intake ''offline'')) =
     Inl (Error ''getaddrinfo ENOTFOUND'')"
    by code_simp
  note off = transport_failure_recovered[where g = sample_gemini
      and i = "sample_intake ''offline''" and w = unreachable_world and s = 0
      and ea = "Error ''spawn npx ENOENT''" and sa = 1 and m = sample_methods]
  note prose = transport_failure_recovered[where g = sample_gemini
      and i = "sample_intake ''prose''" and reply = "''Sorry, no scenarios today.''"
      and e = "Error ''Failed to parse Gemini response: Could not extract JSON from Gemini response''"
      and w = unreachable_world and s = 0 and ea = "Error ''spawn npx ENOENT''" and sa = 1
      and c = fresh_client and url = "''https://x.test''"
      and scns = "[sample_scenario [fill_email, click_login]]" and starts = "\<lambda>k. 1"
      and m = sample_methods]
  from off sample_offline
  have a: "generateGeminiScenarios sample_gemini (sample_intake ''offline'') = Inr []"
    by blast
  have q: "transport_failure (fetch sample_gemini (objective (sample_intake ''quota''))
     (intake_url (sample_intake ''quota'')) (credentials (sample_intake ''quota'')))"
    by (simp add: transport_failure_def sample_gemini_def sample_intake_def)
  have qs: "generateTestScenarios sample_gemini (objective (sample_intake ''quota''))
     (intake_url (sample_intake ''quota'')) (credentials (sample_intake ''quota'')) =
     Inl (Error ''Gemini API error: 429 - quota exceeded'')"
    by code_simp
  from transport_failure_recovered[where g = sample_gemini and i = "sample_intake ''quota''"
      and w = unreachable_world and s = 0 and m = sample_methods] q
  have qg: "generateGeminiScenarios sample_gemini (sample_intake ''quota'') = Inr []"
    by blast
  from prose sample_prose_service sample_prose_parse
  have b: "generateGeminiScenarios sample_gemini (sample_intake ''prose'') = Inr []"
    by blast
  from prose sample_unreachable
  have c: "\<exists>c'. mcp_session unreachable_world fresh_client ''https://x.test''
      [sample_scenario [fill_email, click_login]] 0 (\<lambda>k. 1) =
      ([sample_scenario [fill_email, click_login]], False, c')"
    by blast
  from sample_offline svc a q qs qg sample_prose_service sample_prose_parse b
    sample_unreachable c
  show ?thesis by blast
qed

text \<open>
  C5, the claim as stated, fails: there is no text service, and no input, on which a
  transport failure makes \<^verbatim>\<open>generateGeminiScenarios\<close> throw.
\<close>

theorem transport_failure_never_propagates:
  "\<not> (\<exists>g i e. transport_failure (fetch g (objective i) (intake_url i) (credentials i)) \<and>
         generateGeminiScenarios g i = Inl e)"
  using generateGeminiScenarios_returns by (metis Inl_Inr_False)

end
